theory Spec2Isabelle
  imports Main
begin

section \<open>ANSI parser (\<open>parse_ansi\<close>, UnrealDevHelper.py lines 27--70)\<close>

text \<open>
  Python strings are modelled as \<open>string\<close>. The characters the parser looks at (ESC,
  \<open>[\<close>, the digits, \<open>;\<close> and \<open>m\<close>) are ASCII, every other character is opaque to it.
\<close>

definition ESC :: char where
  "ESC = CHR 0x1B"

text \<open>The module-level dictionary \<open>ANSI_COLORS\<close>, as an association list.\<close>

definition ANSI_COLORS :: "(string \<times> string) list" where
  "ANSI_COLORS =
     [(''30'', ''ansi_black''),
      (''31'', ''ansi_red''),
      (''32'', ''ansi_green''),
      (''33'', ''ansi_yellow''),
      (''34'', ''ansi_blue''),
      (''35'', ''ansi_magenta''),
      (''36'', ''ansi_cyan''),
      (''37'', ''ansi_white'')]"

text \<open>The character class \<open>[0-9;]\<close> of the regular expression.\<close>

definition is_param :: "char \<Rightarrow> bool" where
  "is_param c = (c \<in> set ''0123456789;'')"

text \<open>
  \<open>match_at s\<close> is the length of the match of \<open>\x1b\[[0-9;]*m\<close> anchored at the start
  of \<open>s\<close>, if there is one. The starred class is greedy and \<open>m\<close> is not in the class, so
  the only candidate is the longest run of class characters followed by \<open>m\<close>.
\<close>

fun match_at :: "string \<Rightarrow> nat option" where
  "match_at (e # b # rest) =
     (if e = ESC \<and> b = CHR ''['' then
        (let k = length (takeWhile is_param rest) in
         case drop k rest of
           [] \<Rightarrow> None
         | c # _ \<Rightarrow> if c = CHR ''m'' then Some (k + 3) else None)
      else None)"
| "match_at _ = None"

lemma match_at_bounds: "match_at s = Some n \<Longrightarrow> 3 \<le> n \<and> n \<le> length s"
proof (cases s rule: match_at.cases)
  case (1 e b rest)
  assume m: "match_at s = Some n"
  define k where "k = length (takeWhile is_param rest)"
  from m 1 obtain c cs where d: "drop k rest = c # cs" and n: "n = k + 3"
    by (auto simp: k_def Let_def split: if_splits list.splits)
  from d have "k < length rest"
    by (metis drop_eq_Nil list.distinct(1) not_le)
  with n 1 show ?thesis by simp
qed simp_all

text \<open>
  \<open>pattern.finditer(text)\<close>: the spans \<open>(start, end)\<close> of the leftmost non-overlapping
  matches, scanning from position \<open>pos\<close> with the rest of the text in hand.
\<close>

function finditer_from :: "nat \<Rightarrow> string \<Rightarrow> (nat \<times> nat) list" where
  "finditer_from pos [] = []"
| "finditer_from pos (c # cs) =
     (case match_at (c # cs) of
        Some n \<Rightarrow> (pos, pos + n) # finditer_from (pos + n) (drop n (c # cs))
      | None \<Rightarrow> finditer_from (Suc pos) cs)"
  by pat_completeness auto
termination
proof (relation "measure (\<lambda>(pos, s). length s)")
  fix pos :: nat and c :: char and cs :: string and n :: nat
  assume "match_at (c # cs) = Some n"
  then have "3 \<le> n" using match_at_bounds by blast
  then show "((pos + n, drop n (c # cs)), (pos, c # cs)) \<in> measure (\<lambda>(pos, s). length s)"
    by simp
qed simp_all

definition finditer :: "string \<Rightarrow> (nat \<times> nat) list" where
  "finditer text = finditer_from 0 text"

text \<open>The slice \<open>text[a:b]\<close> for \<open>0 \<le> a\<close> and \<open>0 \<le> b\<close>.\<close>

definition slice :: "string \<Rightarrow> nat \<Rightarrow> nat \<Rightarrow> string" where
  "slice text a b = take (b - a) (drop a text)"

text \<open>\<open>str.split(sep)\<close> with a one-character separator: always at least one piece.\<close>

fun split_on :: "char \<Rightarrow> string \<Rightarrow> string list" where
  "split_on sep [] = [[]]"
| "split_on sep (c # cs) =
     (if c = sep then [] # split_on sep cs
      else (case split_on sep cs of
              [] \<Rightarrow> [[c]]
            | p # ps \<Rightarrow> (c # p) # ps))"

text \<open>The body of \<open>for c in codes\<close> (lines 58--62), acting on \<open>new_color\<close>.\<close>

definition update_color :: "string option \<Rightarrow> string \<Rightarrow> string option" where
  "update_color new_color c =
     (if c = ''0'' then None
      else (case map_of ANSI_COLORS c of
              Some tag \<Rightarrow> Some tag
            | None \<Rightarrow> new_color))"

text \<open>
  Lines 55--63: the colour after the escape sequence \<open>esc_sequence\<close>, whose code is
  \<open>esc_sequence[2:-1]\<close>.
\<close>

definition process_code :: "string option \<Rightarrow> string \<Rightarrow> string option" where
  "process_code current_color esc_sequence =
     (let code = slice esc_sequence 2 (length esc_sequence - 1);
          codes = split_on (CHR '';'') code
      in foldl update_color current_color codes)"

text \<open>
  The loop state is \<open>(segments, current_color, last_pos)\<close>; \<open>parse_step\<close> is one
  iteration of \<open>for match in pattern.finditer(text)\<close>.
\<close>

type_synonym segment = "string \<times> string option"

fun parse_step :: "string \<Rightarrow> segment list \<times> string option \<times> nat \<Rightarrow> nat \<times> nat
    \<Rightarrow> segment list \<times> string option \<times> nat" where
  "parse_step text (segments, current_color, last_pos) (start, end) =
     (let esc_sequence = slice text start end;
          segments' = (if start > last_pos
                       then segments @ [(slice text last_pos start, current_color)]
                       else segments)
      in (segments', process_code current_color esc_sequence, end))"

fun parse_finish :: "string \<Rightarrow> segment list \<times> string option \<times> nat \<Rightarrow> segment list" where
  "parse_finish text (segments, current_color, last_pos) =
     (if last_pos < length text
      then segments @ [(drop last_pos text, current_color)]
      else segments)"

definition parse_ansi :: "string \<Rightarrow> segment list" where
  "parse_ansi text = parse_finish text (foldl (parse_step text) ([], None, 0) (finditer text))"

subsection \<open>What the parser is compared with\<close>




section \<open>Properties of the ANSI parser\<close>
















lemma parse_ansi_example2:
  "parse_ansi ([ESC] @ ''[31m'' @ [ESC] @ ''[99mX'') = [(''X'', Some ''ansi_red'')]"
  by (simp add: parse_ansi_def finditer_def ESC_def is_param_def slice_def process_code_def
      update_color_def ANSI_COLORS_def)



section \<open>Effects: exceptions, events and the project directory\<close>

text \<open>
  An exception is a value: \<open>Exception msg\<close> stands for any instance of a subclass of
  Python's \<open>Exception\<close> whose \<open>str\<close> is \<open>msg\<close> (what \<open>except Exception as e\<close> catches
  and \<open>f"{e}"\<close> prints).
\<close>

datatype exn = Exception string

fun str :: "exn \<Rightarrow> string" where
  "str (Exception msg) = msg"

text \<open>
  The trace records, in program order, what a run does to the outside: a message put on
  the log queue, a status set on \<open>status_var\<close>, a command handed to \<open>subprocess.Popen\<close>,
  a path handed to \<open>shutil.rmtree\<close>, \<open>os.remove\<close> or \<open>os.startfile\<close>.
\<close>

datatype event =
    EvLog string
  | EvStatus string
  | EvPopen string
  | EvRmtree string
  | EvRemove string
  | EvStartfile string

text \<open>
  The working directory (the project root, \<open>os.getcwd()\<close>) is a tree of named entries.
  \<open>File locked\<close>: \<open>os.remove\<close> raises on a locked file. \<open>Dir denied es\<close>: listing a
  denied directory raises (\<open>os.listdir\<close>, and the scan inside \<open>shutil.rmtree\<close>).
  The tree has no links, and entry names are compared as they are written.
\<close>

datatype fsnode = File bool | Dir bool "(string \<times> fsnode) list"

type_synonym dirents = "(string \<times> fsnode) list"

text \<open>
  \<open>os.path.join(a, b)\<close> on Windows for a relative \<open>b\<close> and an \<open>a\<close> that does not end
  in a separator; \<open>quoted\<close> is \<open>'{...}'\<close> in an f-string.
\<close>

definition join :: "string \<Rightarrow> string \<Rightarrow> string" where
  "join a b = a @ [CHR 0x5C] @ b"

definition quoted :: "string \<Rightarrow> string" where
  "quoted s = [CHR 0x27] @ s @ [CHR 0x27]"

text \<open>
The \<open>PermissionError\<close> of a refused file operation.
\<close>

definition access_denied :: "string \<Rightarrow> exn" where
  "access_denied path = Exception (''[WinError 5] Access is denied: '' @ quoted path)"

text \<open>
  \<open>os.path.isdir(os.path.join(directory, name))\<close> and \<open>os.path.isfile\<close>, for the
  directory whose entries are \<open>es\<close>.
\<close>

fun isdir :: "dirents \<Rightarrow> string \<Rightarrow> bool" where
  "isdir es name = (case map_of es name of Some (Dir _ _) \<Rightarrow> True | _ \<Rightarrow> False)"

fun isfile :: "dirents \<Rightarrow> string \<Rightarrow> bool" where
  "isfile es name = (case map_of es name of Some (File _) \<Rightarrow> True | _ \<Rightarrow> False)"

text \<open>
The directory after an entry is unlinked, and after an entry is replaced.
\<close>

fun remove_entry :: "string \<Rightarrow> dirents \<Rightarrow> dirents" where
  "remove_entry name [] = []"
| "remove_entry name ((n, x) # es) =
     (if n = name then es else (n, x) # remove_entry name es)"

fun replace_entry :: "string \<Rightarrow> fsnode \<Rightarrow> dirents \<Rightarrow> dirents" where
  "replace_entry name y [] = []"
| "replace_entry name y ((n, x) # es) =
     (if n = name then (n, y) # es else (n, x) # replace_entry name y es)"

text \<open>
  \<open>shutil.rmtree(path)\<close> with the default error handling: it removes the entries in
  order and raises at the first one it cannot remove, leaving what it has not removed.
  The result is \<open>None\<close> when the node is gone, and otherwise what is left of it with the
  exception raised.
\<close>

fun rmtree_node :: "string \<Rightarrow> fsnode \<Rightarrow> (fsnode \<times> exn) option"
  and rmtree_entries :: "string \<Rightarrow> dirents \<Rightarrow> (dirents \<times> exn) option" where
  "rmtree_node path (File locked) =
     (if locked then Some (File locked, access_denied path) else None)"
| "rmtree_node path (Dir denied es) =
     (if denied then Some (Dir denied es, access_denied path)
      else (case rmtree_entries path es of
              None \<Rightarrow> None
            | Some (es', e) \<Rightarrow> Some (Dir denied es', e)))"
| "rmtree_entries path [] = None"
| "rmtree_entries path ((n, x) # es) =
     (case rmtree_node (join path n) x of
        None \<Rightarrow> rmtree_entries path es
      | Some (x', e) \<Rightarrow> Some ((n, x') # es, e))"

text \<open>
  One iteration of \<open>for folder in folders_to_delete\<close> (lines 145--152, and 186--192 for the
  root), and one of \<open>for file in files_to_delete\<close> (lines 153--160, 202--208): the state
  is the directory's entries and the events so far. Each \<open>try\<close> has its \<open>except Exception\<close>
  branch here.
\<close>

fun delete_folder :: "string \<Rightarrow> dirents \<times> event list \<Rightarrow> string \<Rightarrow> dirents \<times> event list" where
  "delete_folder directory (es, evs) folder =
     (let folder_path = join directory folder in
      case map_of es folder of
        Some (Dir denied sub) \<Rightarrow>
          (case rmtree_node folder_path (Dir denied sub) of
             None \<Rightarrow>
               (remove_entry folder es,
                evs @ [EvRmtree folder_path, EvLog (''Removed folder: '' @ folder_path)])
           | Some (rest, e) \<Rightarrow>
               (replace_entry folder rest es,
                evs @ [EvRmtree folder_path,
                       EvLog (''Error removing folder '' @ folder_path @ '': '' @ str e)]))
      | _ \<Rightarrow> (es, evs))"

fun delete_file :: "string \<Rightarrow> dirents \<times> event list \<Rightarrow> string \<Rightarrow> dirents \<times> event list" where
  "delete_file directory (es, evs) file =
     (let file_path = join directory file in
      case map_of es file of
        Some (File locked) \<Rightarrow>
          (if locked then
             (es, evs @ [EvRemove file_path,
                         EvLog (''Error removing file '' @ file_path @ '': ''
                                @ str (access_denied file_path))])
           else
             (remove_entry file es,
              evs @ [EvRemove file_path, EvLog (''Removed file: '' @ file_path)]))
      | _ \<Rightarrow> (es, evs))"

text \<open>
Lines 145--160: the two deletion loops of \<open>remove_items_recursively\<close>.
\<close>

definition delete_listed :: "string \<Rightarrow> string list \<Rightarrow> string list \<Rightarrow> dirents
    \<Rightarrow> dirents \<times> event list" where
  "delete_listed directory folders_to_delete files_to_delete es =
     foldl (delete_file directory)
       (foldl (delete_folder directory) (es, []) folders_to_delete) files_to_delete"

text \<open>
The number of nodes of a tree, which no deletion increases.
\<close>

fun node_size :: "fsnode \<Rightarrow> nat" and ents_size :: "dirents \<Rightarrow> nat" where
  "node_size (File locked) = 1"
| "node_size (Dir denied es) = Suc (ents_size es)"
| "ents_size [] = 0"
| "ents_size ((n, x) # es) = node_size x + ents_size es"

lemma rmtree_size:
  "rmtree_node path x = Some (x', e) \<Longrightarrow> node_size x' \<le> node_size x"
  "rmtree_entries path es = Some (es', e) \<Longrightarrow> ents_size es' \<le> ents_size es"
  by (induction path x and path es arbitrary: x' e and es' e rule: rmtree_node_rmtree_entries.induct)
     (auto split: if_splits option.splits)

lemma remove_entry_size: "ents_size (remove_entry name es) \<le> ents_size es"
  by (induction es) auto

lemma replace_entry_size:
  "map_of es name = Some x \<Longrightarrow> node_size y \<le> node_size x
     \<Longrightarrow> ents_size (replace_entry name y es) \<le> ents_size es"
  by (induction es) (auto split: if_splits)

lemma delete_folder_size:
  "ents_size (fst (delete_folder directory (es, evs) folder)) \<le> ents_size es"
proof (cases "map_of es folder")
  case None
  then show ?thesis by (simp add: Let_def)
next
  case (Some x)
  show ?thesis
  proof (cases x)
    case (File locked)
    with Some show ?thesis by (simp add: Let_def)
  next
    case (Dir denied sub)
    show ?thesis
    proof (cases "rmtree_node (join directory folder) (Dir denied sub)")
      case None
      with Some Dir show ?thesis
        by (simp add: Let_def remove_entry_size del: rmtree_node.simps)
    next
      case (Some r)
      obtain rest e where r: "r = (rest, e)" by (cases r)
      have "node_size rest \<le> node_size x"
        using rmtree_size(1)[of "join directory folder" "Dir denied sub" rest e] Some r Dir
        by simp
      then have "ents_size (replace_entry folder rest es) \<le> ents_size es"
        using replace_entry_size[OF \<open>map_of es folder = Some x\<close>] by simp
      with \<open>map_of es folder = Some x\<close> Dir Some r show ?thesis
        by (simp add: Let_def del: rmtree_node.simps)
    qed
  qed
qed

lemma delete_file_size:
  "ents_size (fst (delete_file directory (es, evs) file)) \<le> ents_size es"
  by (auto simp: Let_def remove_entry_size split: option.splits fsnode.splits)

lemma foldl_delete_folder_size:
  "ents_size (fst (foldl (delete_folder directory) st names)) \<le> ents_size (fst st)"
proof (induction names arbitrary: st)
  case Nil
  show ?case by simp
next
  case (Cons a names)
  obtain es evs where st: "st = (es, evs)" by (cases st)
  have "ents_size (fst (foldl (delete_folder directory) (delete_folder directory st a) names))
      \<le> ents_size (fst (delete_folder directory st a))"
    by (rule Cons.IH)
  also have "\<dots> \<le> ents_size (fst st)"
    unfolding st using delete_folder_size by simp
  finally show ?case by simp
qed

lemma foldl_delete_file_size:
  "ents_size (fst (foldl (delete_file directory) st names)) \<le> ents_size (fst st)"
proof (induction names arbitrary: st)
  case Nil
  show ?case by simp
next
  case (Cons a names)
  obtain es evs where st: "st = (es, evs)" by (cases st)
  have "ents_size (fst (foldl (delete_file directory) (delete_file directory st a) names))
      \<le> ents_size (fst (delete_file directory st a))"
    by (rule Cons.IH)
  also have "\<dots> \<le> ents_size (fst st)"
    unfolding st using delete_file_size by simp
  finally show ?case by simp
qed

lemma delete_listed_size:
  "ents_size (fst (delete_listed directory folders files es)) \<le> ents_size es"
  unfolding delete_listed_def
  using foldl_delete_file_size[of directory "foldl (delete_folder directory) (es, []) folders" files]
    foldl_delete_folder_size[of directory "(es, [])" folders]
  by simp

text \<open>
  \<open>remove_items_recursively(directory, folders_to_delete, files_to_delete)\<close> (lines
  144--164) for a directory with entries \<open>es\<close>: the two deletion loops, then
  \<open>os.listdir(directory)\<close>, which raises on a denied directory and is inside no \<open>try\<close>,
  then \<open>walk_entries\<close>, the loop \<open>for entry in os.listdir(directory)\<close> descending into
  every subdirectory. The result is the exception that escaped (if any), the entries left
  and the events in order; an exception of a recursive call ends the loop.
\<close>

function remove_items_recursively :: "string \<Rightarrow> string list \<Rightarrow> string list \<Rightarrow> bool \<Rightarrow> dirents
    \<Rightarrow> exn option \<times> dirents \<times> event list"
  and walk_entries :: "string \<Rightarrow> string list \<Rightarrow> string list \<Rightarrow> dirents
    \<Rightarrow> exn option \<times> dirents \<times> event list" where
  "remove_items_recursively directory folders_to_delete files_to_delete denied es =
     (let cleaned = delete_listed directory folders_to_delete files_to_delete es in
      if denied then (Some (access_denied directory), fst cleaned, snd cleaned)
      else (case walk_entries directory folders_to_delete files_to_delete (fst cleaned) of
              (r, es', evs) \<Rightarrow> (r, es', snd cleaned @ evs)))"
| "walk_entries directory folders_to_delete files_to_delete [] = (None, [], [])"
| "walk_entries directory folders_to_delete files_to_delete ((entry, x) # rest) =
     (case x of
        File locked \<Rightarrow>
          (case walk_entries directory folders_to_delete files_to_delete rest of
             (r, rest', evs) \<Rightarrow> (r, (entry, x) # rest', evs))
      | Dir denied sub \<Rightarrow>
          (case remove_items_recursively (join directory entry) folders_to_delete
                  files_to_delete denied sub of
             (Some e, sub', evs) \<Rightarrow> (Some e, (entry, Dir denied sub') # rest, evs)
           | (None, sub', evs) \<Rightarrow>
               (case walk_entries directory folders_to_delete files_to_delete rest of
                  (r, rest', evs') \<Rightarrow> (r, (entry, Dir denied sub') # rest', evs @ evs'))))"
  by pat_completeness auto
termination
proof (relation "measure (\<lambda>a. case a of
    Inl (directory, folders, files, denied, es) \<Rightarrow> 2 * ents_size es + 1
  | Inr (directory, folders, files, es) \<Rightarrow> 2 * ents_size es)")
  fix directory :: string and folders files :: "string list" and denied :: bool
    and es :: dirents and cleaned :: "dirents \<times> event list"
  assume "cleaned = delete_listed directory folders files es"
  then have "ents_size (fst cleaned) \<le> ents_size es"
    using delete_listed_size by simp
  then show "(Inr (directory, folders, files, fst cleaned), Inl (directory, folders, files, denied, es))
      \<in> measure (\<lambda>a. case a of
          Inl (directory, folders, files, denied, es) \<Rightarrow> 2 * ents_size es + 1
        | Inr (directory, folders, files, es) \<Rightarrow> 2 * ents_size es)"
    by simp
qed auto

declare remove_items_recursively.simps [simp del]

text \<open>
  \<open>glob.glob("*.uproject")\<close> in the working directory: the entries whose name ends in
  \<open>.uproject\<close> and does not start with a dot, in listing order.
\<close>

definition is_uproject_name :: "string \<Rightarrow> bool" where
  "is_uproject_name name =
     (take 1 name \<noteq> ''.'' \<and> 9 \<le> length name \<and> drop (length name - 9) name = ''.uproject'')"

definition glob_uproject :: "dirents \<Rightarrow> string list" where
  "glob_uproject es = filter is_uproject_name (map fst es)"

text \<open>
  \<open>os.path.splitext(name)[0]\<close> for a base name: the name up to its last dot, unless
  only dots come before it.
\<close>

definition splitext_root :: "string \<Rightarrow> string" where
  "splitext_root name =
     (let stem = rev (drop 1 (dropWhile (\<lambda>c. c \<noteq> CHR ''.'') (rev name))) in
      if filter (\<lambda>c. c \<noteq> CHR ''.'') stem \<noteq> [] then stem else name)"

text \<open>
The lists of lines 172 and 178--185 (the latter as names under the root).
\<close>

definition plugin_folders :: "string list" where
  "plugin_folders = [''.vs'', ''Binaries'', ''DerivedDataCache'', ''Intermediate'', ''Saved'']"

definition root_folders :: "string list" where
  "root_folders = [''.vs'', ''.idea'', ''Binaries'', ''DerivedDataCache'', ''Intermediate'', ''Saved'']"

text \<open>
\<open>clean_plugins_folder\<close> (lines 166--174).
\<close>

definition clean_plugins_folder :: "string \<Rightarrow> string \<Rightarrow> dirents
    \<Rightarrow> exn option \<times> dirents \<times> event list" where
  "clean_plugins_folder script_directory project_name es =
     (let plugins_directory = join script_directory ''Plugins'' in
      case map_of es ''Plugins'' of
        Some (Dir denied sub) \<Rightarrow>
          (let folders_to_delete = plugin_folders;
               files_to_delete = [project_name @ ''.sln'', ''.vsconfig'']
           in case remove_items_recursively plugins_directory folders_to_delete
                     files_to_delete denied sub of
                (r, sub', evs) \<Rightarrow>
                  (r, replace_entry ''Plugins'' (Dir denied sub') es,
                   EvLog ''Cleaning plugin folders and files...'' # evs))
      | _ \<Rightarrow>
          (None, es, [EvLog (''Plugins folder not found in '' @ script_directory @ ''.'')]))"

text \<open>
Lines 194--208 of \<open>clean_files_and_folders\<close>.
\<close>

definition clean_root_files :: "string \<Rightarrow> dirents \<times> event list \<Rightarrow> dirents \<times> event list" where
  "clean_root_files script_directory st =
     (case glob_uproject (fst st) of
        [] \<Rightarrow> st
      | project_file # others \<Rightarrow>
          (let project_name_local = splitext_root project_file;
               files_to_delete = [project_name_local @ ''.sln'', ''.vsconfig'']
           in foldl (delete_file script_directory) st files_to_delete))"

text \<open>
  \<open>clean_files_and_folders\<close> (lines 176--210), called with the working directory as
  \<open>script_directory\<close> (its only call, line 275).
\<close>

definition clean_files_and_folders :: "string \<Rightarrow> string \<Rightarrow> dirents
    \<Rightarrow> exn option \<times> dirents \<times> event list" where
  "clean_files_and_folders script_directory project_name es =
     (let st1 = foldl (delete_folder script_directory)
                  (es, [EvLog ''Cleaning project root folders...'']) root_folders;
          st2 = clean_root_files script_directory
                  (fst st1, snd st1 @ [EvLog ''Cleaning project root files...''])
      in case clean_plugins_folder script_directory project_name (fst st2) of
           (Some e, es', evs) \<Rightarrow> (Some e, es', snd st2 @ evs)
         | (None, es', evs) \<Rightarrow>
             (None, es', snd st2 @ evs @ [EvLog ''Cleanup completed successfully!'']))"

section \<open>The application state, the log queue and its consumer\<close>

text \<open>
  \<open>log_queue\<close> is the module's \<open>queue.Queue\<close> (first in, first out), \<open>textbox\<close> the
  segments inserted into the text widget, \<open>status_var\<close> the status \<open>StringVar\<close>,
  \<open>project\<close> the entries of the working directory. \<open>taken\<close> and \<open>trace\<close> are history:
  the messages \<open>get_nowait\<close> has returned, and the events of the run.
\<close>

record world =
  log_queue :: "string list"
  taken :: "string list"
  textbox :: "segment list"
  status_var :: string
  project :: dirents
  trace :: "event list"

text \<open>
\<open>log(message)\<close> (lines 20--22) and \<open>status_var.set(s)\<close>.
\<close>

definition log :: "string \<Rightarrow> world \<Rightarrow> world" where
  "log message w = w\<lparr>log_queue := log_queue w @ [message], trace := trace w @ [EvLog message]\<rparr>"

definition set_status :: "string \<Rightarrow> world \<Rightarrow> world" where
  "set_status s w = w\<lparr>status_var := s, trace := trace w @ [EvStatus s]\<rparr>"

text \<open>
The events of a cleanup, carried out on the state.
\<close>

fun emit1 :: "world \<Rightarrow> event \<Rightarrow> world" where
  "emit1 w (EvLog message) = log message w"
| "emit1 w ev = w\<lparr>trace := trace w @ [ev]\<rparr>"

definition emit :: "event list \<Rightarrow> world \<Rightarrow> world" where
  "emit evs w = foldl emit1 w evs"

text \<open>
  \<open>log_queue.get_nowait()\<close> raises \<open>queue.Empty\<close> on the empty queue and never waits.
\<close>

datatype queue_error = Empty

definition get_nowait :: "string list \<Rightarrow> queue_error + string \<times> string list" where
  "get_nowait q = (case q of [] \<Rightarrow> Inl Empty | message # rest \<Rightarrow> Inr (message, rest))"

definition insert_segments :: "segment list \<Rightarrow> world \<Rightarrow> world" where
  "insert_segments segs w = w\<lparr>textbox := textbox w @ segs\<rparr>"

text \<open>
  One iteration of \<open>while True\<close> in \<open>poll_log_queue_colored\<close> (lines 80--86), and the
  loop with its \<open>except queue.Empty: pass\<close>. The rescheduling of line 89 is left to the
  event loop.
\<close>

definition poll_iteration :: "world \<Rightarrow> queue_error + world" where
  "poll_iteration w =
     (case get_nowait (log_queue w) of
        Inl e \<Rightarrow> Inl e
      | Inr (message, rest) \<Rightarrow>
          Inr (insert_segments (parse_ansi (message @ [CHR 0x0A]))
                 (w\<lparr>log_queue := rest, taken := taken w @ [message]\<rparr>)))"

function poll_loop :: "world \<Rightarrow> world" where
  "poll_loop w =
     (case poll_iteration w of
        Inl Empty \<Rightarrow> w
      | Inr w' \<Rightarrow> poll_loop w')"
  by pat_completeness auto
termination
  by (relation "measure (\<lambda>w. length (log_queue w))")
     (auto simp: poll_iteration_def get_nowait_def insert_segments_def split: list.splits)

declare poll_loop.simps [simp del]

definition poll_log_queue_colored :: "world \<Rightarrow> world" where
  "poll_log_queue_colored w = poll_loop w"

section \<open>The environment of a run\<close>

text \<open>
  What \<open>winreg\<close> answers for the key of a version: the value \<open>InstalledDirectory\<close>,
  \<open>FileNotFoundError\<close> (key or value absent), or another \<open>OSError\<close>.
\<close>

datatype reg_lookup = InstalledDirectory string | KeyNotFound | RegError string

text \<open>
  A process run: the lines read from its output, then either its return code or the
  exception that \<open>Popen\<close> or the reading loop raised, and the working directory as the
  process leaves it.
\<close>

datatype proc_end = Exit int | Raise string

record proc_run =
  stdout_lines :: "string list"
  ending :: proc_end
  project_after :: dirents

text \<open>
  The environment: the working directory's path, the variable \<open>UNREAL_ENGINE_PATH\<close>,
  the registry, which paths outside the project exist, what loading the descriptor gives
  (the value of \<open>EngineAssociation\<close>, \<open>None\<close> when the key is absent, or the exception of
  \<open>open\<close> or \<open>json.load\<close>), how a command runs, and whether \<open>os.startfile\<close> raises.
\<close>

record env =
  cwd :: string
  environ_UNREAL_ENGINE_PATH :: "string option"
  registry :: "string \<Rightarrow> reg_lookup"
  exists_on_disk :: "string \<Rightarrow> bool"
  load_descriptor :: "string \<Rightarrow> exn + string option"
  run_process :: "string \<Rightarrow> dirents \<Rightarrow> proc_run"
  startfile_fails :: "string \<Rightarrow> string option"

text \<open>
  \<open>os.path.exists(path)\<close>, which is false for the empty path; \<open>falsy v\<close> is Python's
  \<open>not v\<close> for a string or \<open>None\<close>.
\<close>

definition path_exists :: "env \<Rightarrow> string \<Rightarrow> bool" where
  "path_exists env path = (path \<noteq> [] \<and> exists_on_disk env path)"

definition falsy :: "string option \<Rightarrow> bool" where
  "falsy v = (v = None \<or> v = Some [])"

text \<open>
The decimal \<open>str\<close> of an integer, for \<open>f"{retcode}"\<close>.
\<close>

definition digit :: "nat \<Rightarrow> char" where
  "digit d = ''0123456789'' ! d"

function show_nat :: "nat \<Rightarrow> string" where
  "show_nat n = (if n < 10 then [digit n] else show_nat (n div 10) @ [digit (n mod 10)])"
  by pat_completeness auto
termination
  by (relation "measure id") auto

declare show_nat.simps [simp del]

definition show_int :: "int \<Rightarrow> string" where
  "show_int i = (if i < 0 then CHR ''-'' # show_nat (nat (- i)) else show_nat (nat i))"

text \<open>
\<open>line.rstrip("\n")\<close>.
\<close>

definition rstrip_newline :: "string \<Rightarrow> string" where
  "rstrip_newline line = rev (dropWhile (\<lambda>c. c = CHR 0x0A) (rev line))"

section \<open>Process streaming (\<open>run_command_stream\<close>, lines 94--124)\<close>

text \<open>
\<open>logs\<close> puts several messages in order.
\<close>

definition logs :: "string list \<Rightarrow> world \<Rightarrow> world" where
  "logs messages w = foldl (\<lambda>w message. log message w) w messages"

text \<open>
  The body of the \<open>try\<close> (lines 102--121), with the exception it ends in, if any; then
  the function with its handler (lines 122--124).
\<close>

definition stream_process :: "env \<Rightarrow> string \<Rightarrow> string \<Rightarrow> world \<Rightarrow> exn option \<times> world" where
  "stream_process env command finish_message w =
     (let w1 = w\<lparr>trace := trace w @ [EvPopen command]\<rparr>;
          process = run_process env command (project w1);
          w2 = logs (map rstrip_newline (stdout_lines process)) w1;
          w3 = w2\<lparr>project := project_after process\<rparr>
      in case ending process of
           Raise e \<Rightarrow> (Some (Exception e), w3)
         | Exit retcode \<Rightarrow>
             (if retcode = 0 then (None, log finish_message (set_status ''Done'' w3))
              else (None, log (''Error: command returned exit code '' @ show_int retcode)
                            (set_status ''Error'' w3))))"

definition run_command_stream :: "env \<Rightarrow> string \<Rightarrow> string \<Rightarrow> string \<Rightarrow> world \<Rightarrow> world" where
  "run_command_stream env command start_message finish_message w =
     (case stream_process env command finish_message
             (log start_message (set_status start_message w)) of
        (None, w') \<Rightarrow> w'
      | (Some e, w') \<Rightarrow> set_status ''Error'' (log (''Error: '' @ str e) w'))"

section \<open>Engine resolution\<close>

text \<open>
  \<open>find_unreal_engine_path_from_registry\<close> (lines 129--142) and the chain of lines
  244--253 of \<open>run_build_process\<close>. Both give their result with the messages they log, in
  order; an \<open>OSError\<close> that is not \<open>FileNotFoundError\<close> is not caught there.
\<close>

definition find_unreal_engine_path_from_registry :: "env \<Rightarrow> string
    \<Rightarrow> (exn + string option) \<times> string list" where
  "find_unreal_engine_path_from_registry env version =
     (case registry env version of
        InstalledDirectory installed_directory \<Rightarrow>
          (if installed_directory \<noteq> [] \<and> path_exists env installed_directory
           then (Inr (Some installed_directory), [])
           else (Inr None,
                 [''Unreal Engine '' @ version @ '' found, but directory ''
                    @ quoted installed_directory @ '' does not exist.'']))
      | KeyNotFound \<Rightarrow>
          (Inr None, [''Unreal Engine '' @ version @ '' not found in Windows registry.''])
      | RegError msg \<Rightarrow> (Inl (Exception msg), []))"

definition default_engine_path :: "string \<Rightarrow> string" where
  "default_engine_path engine_version =
     ''C:'' @ [CHR 0x5C] @ ''Program Files'' @ [CHR 0x5C] @ ''Epic Games'' @ [CHR 0x5C]
       @ ''UE_'' @ engine_version"

definition resolve_engine_path :: "env \<Rightarrow> string \<Rightarrow> (exn + string) \<times> string list" where
  "resolve_engine_path env engine_version =
     (let unreal_engine_path = environ_UNREAL_ENGINE_PATH env in
      if falsy unreal_engine_path then
        (case find_unreal_engine_path_from_registry env engine_version of
           (Inl e, logged) \<Rightarrow> (Inl e, logged)
         | (Inr found, logged) \<Rightarrow>
             (if falsy found then
                (let unreal_engine_path = default_engine_path engine_version
                 in (Inr unreal_engine_path,
                     logged @ [''Using default path: '' @ unreal_engine_path]))
              else (Inr (the found),
                    logged @ [''Path obtained from registry: '' @ the found])))
      else (Inr (the unreal_engine_path),
            [''Path defined by environment variable: '' @ the unreal_engine_path]))"

section \<open>The compile pipeline (\<open>run_build_process\<close>, lines 215--305)\<close>

text \<open>
  The handler of line 304, \<open>os.startfile\<close>, and \<open>"{...}"\<close> in an f-string.
\<close>

definition on_exception :: "exn \<Rightarrow> world \<Rightarrow> world" where
  "on_exception e w = log (''Error: '' @ str e) w"

definition startfile :: "env \<Rightarrow> string \<Rightarrow> world \<Rightarrow> exn option \<times> world" where
  "startfile env path w =
     (case startfile_fails env path of
        Some msg \<Rightarrow> (Some (Exception msg), w)
      | None \<Rightarrow> (None, w\<lparr>trace := trace w @ [EvStartfile path]\<rparr>))"

definition dq :: "string \<Rightarrow> string" where
  "dq s = [CHR 0x22] @ s @ [CHR 0x22]"

text \<open>
Lines 291--303: the optional opening of the solution and of the descriptor.
\<close>

definition open_results :: "env \<Rightarrow> bool \<Rightarrow> bool \<Rightarrow> string \<Rightarrow> string \<Rightarrow> string \<Rightarrow> world \<Rightarrow> world" where
  "open_results env open_sln open_uproject script_directory project_name project_file w =
     (let sln_path = join script_directory (project_name @ ''.sln'');
          uproject_path = join script_directory project_file;
          r1 = (if open_sln then
                  (if isfile (project w) (project_name @ ''.sln'')
                   then startfile env sln_path (log ''Opening SLN file...'' w)
                   else (None, log ''SLN file not found to open.'' w))
                else (None, w))
      in case r1 of
           (Some e, w1) \<Rightarrow> on_exception e w1
         | (None, w1) \<Rightarrow>
             (if open_uproject then
                (if isfile (project w1) project_file
                 then (case startfile env uproject_path (log ''Opening .uproject file...'' w1) of
                         (Some e, w2) \<Rightarrow> on_exception e w2
                       | (None, w2) \<Rightarrow> w2)
                 else log ''.uproject file not found to open.'' w1)
              else w1))"

text \<open>
Lines 277--289 and what follows them.
\<close>

definition build_script_path_of :: "string \<Rightarrow> string" where
  "build_script_path_of unreal_engine_path =
     foldl join unreal_engine_path [''Engine'', ''Build'', ''BatchFiles'', ''Build.bat'']"

definition build_command_of :: "string \<Rightarrow> string \<Rightarrow> string" where
  "build_command_of build_script_path uproject_path =
     dq build_script_path @ '' -projectfiles -project='' @ dq uproject_path @ '' -game -rocket''"

definition regenerate_and_compile :: "env \<Rightarrow> bool \<Rightarrow> bool \<Rightarrow> string \<Rightarrow> string \<Rightarrow> string
    \<Rightarrow> string \<Rightarrow> string \<Rightarrow> world \<Rightarrow> world" where
  "regenerate_and_compile env open_sln open_uproject script_directory project_name project_file
       unreal_engine_path compile_command w =
     (let uproject_path = join script_directory project_file;
          build_script_path = build_script_path_of unreal_engine_path
      in if \<not> path_exists env build_script_path
         then log (''Build.bat file not found at: '' @ build_script_path) w
         else
           (let build_command = build_command_of build_script_path uproject_path;
                w1 = log (CHR 0x0A # ''=== Recreating SLN file (calling Build.bat) ==='') w;
                w2 = log (''Executing: '' @ build_command) w1;
                w3 = run_command_stream env build_command ''Recreating SLN''
                       ''SLN file recreated successfully'' w2;
                w4 = log (CHR 0x0A # ''=== Compiling the project ==='') w3;
                w5 = log (''Executing: '' @ compile_command) w4;
                w6 = run_command_stream env compile_command ''Compiling project''
                       ''Project compiled successfully'' w5;
                w7 = log (CHR 0x0A # ''Project files compiled successfully.'') w6
            in open_results env open_sln open_uproject script_directory project_name
                 project_file w7))"

text \<open>
Lines 255--275.
\<close>

definition build_tool_dll_of :: "string \<Rightarrow> string" where
  "build_tool_dll_of unreal_engine_path =
     foldl join unreal_engine_path
       [''Engine'', ''Binaries'', ''DotNET'', ''UnrealBuildTool'', ''UnrealBuildTool.dll'']"

definition compile_command_of :: "string \<Rightarrow> string \<Rightarrow> string \<Rightarrow> string" where
  "compile_command_of build_tool_dll target_name uproject_path =
     ''dotnet '' @ dq build_tool_dll @ '' '' @ target_name @ '' Win64 Development ''
       @ ''-Project='' @ dq uproject_path @ '' -WaitMutex -FromMsBuild -Rebuild''"

definition clean_and_build :: "env \<Rightarrow> bool \<Rightarrow> bool \<Rightarrow> string \<Rightarrow> string \<Rightarrow> string
    \<Rightarrow> string \<Rightarrow> world \<Rightarrow> world" where
  "clean_and_build env open_sln open_uproject script_directory project_name project_file
       unreal_engine_path w =
     (let uproject_path = join script_directory project_file;
          target_name = project_name @ ''Editor'';
          build_tool_dll = build_tool_dll_of unreal_engine_path
      in if \<not> path_exists env build_tool_dll
         then log (''File '' @ quoted build_tool_dll @ '' not found.'') w
         else
           (let compile_command = compile_command_of build_tool_dll target_name uproject_path;
                w1 = log (CHR 0x0A # ''=== Cleaning project files for rebuild ==='') w
            in case clean_files_and_folders script_directory project_name (project w1) of
                 (r, es', evs) \<Rightarrow>
                   (let w2 = emit evs (w1\<lparr>project := es'\<rparr>) in
                    case r of
                      Some e \<Rightarrow> on_exception e w2
                    | None \<Rightarrow>
                        regenerate_and_compile env open_sln open_uproject script_directory
                          project_name project_file unreal_engine_path compile_command w2)))"

text \<open>
Lines 221--253, with the handler of line 304 at every place that raises.
\<close>

definition run_build_process :: "env \<Rightarrow> bool \<Rightarrow> bool \<Rightarrow> world \<Rightarrow> world" where
  "run_build_process env open_sln open_uproject w =
     (let script_directory = cwd env;
          uproject_files = glob_uproject (project w)
      in case uproject_files of
           [] \<Rightarrow> log ''No .uproject file found in the current directory.'' w
         | project_file # others \<Rightarrow>
             (let w1 = (if others \<noteq> []
                        then log ''More than one .uproject file found. Selecting the first one.'' w
                        else w);
                  uproject_path = join script_directory project_file;
                  w2 = log (''.uproject file found: '' @ uproject_path) w1
              in case load_descriptor env uproject_path of
                   Inl e \<Rightarrow> on_exception e w2
                 | Inr engine_version \<Rightarrow>
                     (if falsy engine_version
                      then log (quoted ''EngineAssociation''
                                @ '' key not found in the .uproject file.'') w2
                      else
                        (let w3 = log (''Unreal Engine version set in project: ''
                                       @ the engine_version) w2;
                             project_name = splitext_root project_file;
                             target_name = project_name @ ''Editor'';
                             w4 = log (''Target to compile: '' @ target_name) w3
                         in case resolve_engine_path env (the engine_version) of
                              (Inl e, logged) \<Rightarrow> on_exception e (logs logged w4)
                            | (Inr unreal_engine_path, logged) \<Rightarrow>
                                clean_and_build env open_sln open_uproject script_directory
                                  project_name project_file unreal_engine_path
                                  (logs logged w4)))))"

text \<open>
  \<open>start_compile_thread\<close> and \<open>run_compile\<close> (lines 474--481): the status is set, then the
  worker runs the pipeline. The button state belongs to the presentation layer.
\<close>

definition start_compile_thread :: "env \<Rightarrow> bool \<Rightarrow> bool \<Rightarrow> world \<Rightarrow> world" where
  "start_compile_thread env open_sln open_uproject w =
     run_build_process env open_sln open_uproject (set_status ''Compiling Editor...'' w)"

section \<open>Two concrete runs\<close>

text \<open>
  A project \<open>C:\Game\<close> with a descriptor for engine 5.3 and a \<open>Saved\<close> folder. In
  \<open>env0\<close> the override is unset, the registry has no key and no engine path exists.
\<close>

definition env0 :: env where
  "env0 = \<lparr>cwd = ''C:'' @ [CHR 0x5C] @ ''Game'',
           environ_UNREAL_ENGINE_PATH = None,
           registry = (\<lambda>version. KeyNotFound),
           exists_on_disk = (\<lambda>path. False),
           load_descriptor = (\<lambda>path. Inr (Some ''5.3'')),
           run_process = (\<lambda>command es. \<lparr>stdout_lines = [], ending = Exit 0, project_after = es\<rparr>),
           startfile_fails = (\<lambda>path. None)\<rparr>"

definition w0 :: world where
  "w0 = \<lparr>log_queue = [], taken = [], textbox = [], status_var = ''Ready'',
          project = [(''Game.uproject'', File False),
                     (''Saved'', Dir False [(''x.txt'', File False)])],
          trace = []\<rparr>"

section \<open>Engine resolution: the fallback chain\<close>

text \<open>
  Claim C2 says that a set override is returned verbatim. The variable can be set to the
  empty string, and line 245 tests \<open>not unreal_engine_path\<close>: the chain then goes on to
  the registry and the default.
\<close>

theorem override_empty_counterexample:
  "environ_UNREAL_ENGINE_PATH (env0\<lparr>environ_UNREAL_ENGINE_PATH := Some ''''\<rparr>) = Some ''''
   \<and> fst (resolve_engine_path (env0\<lparr>environ_UNREAL_ENGINE_PATH := Some ''''\<rparr>) ''5.3'')
       = Inr (default_engine_path ''5.3'')
   \<and> default_engine_path ''5.3'' \<noteq> ''''"
  by (simp add: env0_def resolve_engine_path_def falsy_def Let_def
      find_unreal_engine_path_from_registry_def default_engine_path_def)

text \<open>
  Claim C2, amended. An override set to a non-empty string is returned verbatim and
  nothing else is logged. With the override unset or empty, a registry path that exists
  on disk is returned; with the key absent, or a registry path that does not exist, the
  default path \<open>C:\Program Files\Epic Games\UE_<version>\<close> is returned without any check
  of its existence.
\<close>

theorem resolve_engine_path_chain:
  "(environ_UNREAL_ENGINE_PATH env = Some p \<and> p \<noteq> [] \<longrightarrow>
      resolve_engine_path env version
        = (Inr p, [''Path defined by environment variable: '' @ p]))
   \<and> (falsy (environ_UNREAL_ENGINE_PATH env) \<and> registry env version = InstalledDirectory d
        \<and> path_exists env d \<longrightarrow>
      resolve_engine_path env version = (Inr d, [''Path obtained from registry: '' @ d]))
   \<and> (falsy (environ_UNREAL_ENGINE_PATH env)
        \<and> (registry env version = KeyNotFound
            \<or> registry env version = InstalledDirectory d \<and> \<not> path_exists env d) \<longrightarrow>
      fst (resolve_engine_path env version) = Inr (default_engine_path version)
      \<and> last (snd (resolve_engine_path env version))
          = ''Using default path: '' @ default_engine_path version)"
  by (auto simp: resolve_engine_path_def falsy_def find_unreal_engine_path_from_registry_def
      path_exists_def Let_def)

theorem resolve_engine_path_chain_witness:
  "resolve_engine_path (env0\<lparr>environ_UNREAL_ENGINE_PATH := Some ''D:UE''\<rparr>) ''5.3''
     = (Inr ''D:UE'', [''Path defined by environment variable: D:UE''])
   \<and> resolve_engine_path
        (env0\<lparr>registry := (\<lambda>v. InstalledDirectory ''E:UE''), exists_on_disk := (\<lambda>p. p = ''E:UE'')\<rparr>)
        ''5.3'' = (Inr ''E:UE'', [''Path obtained from registry: E:UE''])
   \<and> fst (resolve_engine_path env0 ''5.3'') = Inr (default_engine_path ''5.3'')
   \<and> fst (resolve_engine_path (env0\<lparr>registry := (\<lambda>v. InstalledDirectory ''E:UE'')\<rparr>) ''5.3'')
       = Inr (default_engine_path ''5.3'')"
proof -
  let ?e1 = "env0\<lparr>environ_UNREAL_ENGINE_PATH := Some ''D:UE''\<rparr>"
  let ?e2 = "env0\<lparr>registry := (\<lambda>v. InstalledDirectory ''E:UE''), exists_on_disk := (\<lambda>p. p = ''E:UE'')\<rparr>"
  let ?e3 = "env0\<lparr>registry := (\<lambda>v. InstalledDirectory ''E:UE'')\<rparr>"
  have a: "environ_UNREAL_ENGINE_PATH ?e1 = Some ''D:UE'' \<and> ''D:UE'' \<noteq> []"
    by (simp add: env0_def)
  have b: "falsy (environ_UNREAL_ENGINE_PATH ?e2) \<and> registry ?e2 ''5.3'' = InstalledDirectory ''E:UE''
        \<and> path_exists ?e2 ''E:UE''"
    by (simp add: env0_def falsy_def path_exists_def)
  have c: "falsy (environ_UNREAL_ENGINE_PATH env0) \<and> registry env0 ''5.3'' = KeyNotFound"
    by (simp add: env0_def falsy_def)
  have d: "falsy (environ_UNREAL_ENGINE_PATH ?e3) \<and> registry ?e3 ''5.3'' = InstalledDirectory ''E:UE''
        \<and> \<not> path_exists ?e3 ''E:UE''"
    by (simp add: env0_def falsy_def path_exists_def)
  show ?thesis
    using resolve_engine_path_chain[of ?e1 "''D:UE''" "''5.3''" "''''"]
      resolve_engine_path_chain[of ?e2 "''''" "''5.3''" "''E:UE''"]
      resolve_engine_path_chain[of env0 "''''" "''5.3''" "''''"]
      resolve_engine_path_chain[of ?e3 "''''" "''5.3''" "''E:UE''"]
      a b c d
    by simp
qed

section \<open>Process streaming: outcomes\<close>

lemma log_fields [simp]:
  "log_queue (log m w) = log_queue w @ [m]"
  "trace (log m w) = trace w @ [EvLog m]"
  "status_var (log m w) = status_var w"
  "project (log m w) = project w"
  "taken (log m w) = taken w"
  "textbox (log m w) = textbox w"
  by (simp_all add: log_def)

lemma set_status_fields [simp]:
  "log_queue (set_status s w) = log_queue w"
  "trace (set_status s w) = trace w @ [EvStatus s]"
  "status_var (set_status s w) = s"
  "project (set_status s w) = project w"
  "taken (set_status s w) = taken w"
  "textbox (set_status s w) = textbox w"
  by (simp_all add: set_status_def)

lemma logs_fields [simp]:
  "log_queue (logs ms w) = log_queue w @ ms"
  "trace (logs ms w) = trace w @ map EvLog ms"
  "status_var (logs ms w) = status_var w"
  "project (logs ms w) = project w"
  "taken (logs ms w) = taken w"
  "textbox (logs ms w) = textbox w"
  unfolding logs_def by (induction ms arbitrary: w) simp_all

text \<open>
  The events with which \<open>run_command_stream\<close> ends, by the way the process ended.
\<close>

definition ending_events :: "string \<Rightarrow> proc_end \<Rightarrow> event list" where
  "ending_events finish_message e =
     (case e of
        Exit retcode \<Rightarrow>
          (if retcode = 0 then [EvStatus ''Done'', EvLog finish_message]
           else [EvStatus ''Error'',
                 EvLog (''Error: command returned exit code '' @ show_int retcode)])
      | Raise msg \<Rightarrow> [EvLog (''Error: '' @ msg), EvStatus ''Error''])"

lemma run_command_stream_trace:
  "trace (run_command_stream env command start finish w)
     = trace w @ [EvStatus start, EvLog start, EvPopen command]
       @ map EvLog (map rstrip_newline (stdout_lines (run_process env command (project w))))
       @ ending_events finish (ending (run_process env command (project w)))"
  by (simp add: run_command_stream_def stream_process_def ending_events_def Let_def
      split: proc_end.splits)

lemma run_command_stream_project:
  "project (run_command_stream env command start finish w)
     = project_after (run_process env command (project w))"
  by (simp add: run_command_stream_def stream_process_def Let_def split: proc_end.splits)

lemma run_command_stream_log_queue:
  "log_queue (run_command_stream env command start finish w)
     = log_queue w @ [start]
       @ map rstrip_newline (stdout_lines (run_process env command (project w)))
       @ [case ending (run_process env command (project w)) of
            Exit retcode \<Rightarrow> if retcode = 0 then finish
                            else ''Error: command returned exit code '' @ show_int retcode
          | Raise msg \<Rightarrow> ''Error: '' @ msg]"
  by (simp add: run_command_stream_def stream_process_def Let_def split: proc_end.splits)

lemma run_command_stream_status:
  "status_var (run_command_stream env command start finish w)
     = (if ending (run_process env command (project w)) = Exit 0 then ''Done'' else ''Error'')"
  by (simp add: run_command_stream_def stream_process_def Let_def split: proc_end.splits)

text \<open>
  Claim C5. Every call of \<open>run_command_stream\<close> sets the status to the start label and
  logs it before the command is handed to \<open>Popen\<close>, then logs the lines read. Return code
  0: status \<open>Done\<close> and the finish label is logged. Another return code: status \<open>Error\<close>
  and a line with the code. An exception of \<open>Popen\<close> or of the reading loop: its text is
  logged and the status is \<open>Error\<close>. The call returns a state in each case, there is no
  exceptional result.
\<close>

theorem run_command_stream_outcomes:
  "(\<exists>rest. trace (run_command_stream env command start finish w)
       = trace w @ [EvStatus start, EvLog start, EvPopen command] @ rest)
   \<and> (\<exists>end_line. log_queue (run_command_stream env command start finish w)
       = log_queue w @ [start]
         @ map rstrip_newline (stdout_lines (run_process env command (project w)))
         @ [end_line])
   \<and> (ending (run_process env command (project w)) = Exit 0 \<longrightarrow>
        status_var (run_command_stream env command start finish w) = ''Done''
        \<and> last (log_queue (run_command_stream env command start finish w)) = finish)
   \<and> (ending (run_process env command (project w)) = Exit retcode \<and> retcode \<noteq> 0 \<longrightarrow>
        status_var (run_command_stream env command start finish w) = ''Error''
        \<and> last (log_queue (run_command_stream env command start finish w))
            = ''Error: command returned exit code '' @ show_int retcode)
   \<and> (ending (run_process env command (project w)) = Raise msg \<longrightarrow>
        status_var (run_command_stream env command start finish w) = ''Error''
        \<and> last (log_queue (run_command_stream env command start finish w)) = ''Error: '' @ msg)"
  by (simp add: run_command_stream_trace run_command_stream_log_queue run_command_stream_status)

lemma show_int_2: "show_int 2 = ''2''"
  by (simp add: show_int_def show_nat.simps digit_def)

theorem run_command_stream_outcomes_witness:
  "status_var (run_command_stream env0 ''build'' ''Start'' ''Finish'' w0) = ''Done''
   \<and> log_queue (run_command_stream env0 ''build'' ''Start'' ''Finish'' w0) = [''Start'', ''Finish'']
   \<and> status_var (run_command_stream
        (env0\<lparr>run_process := (\<lambda>c es. \<lparr>stdout_lines = [''oops'' @ [CHR 0x0A]], ending = Exit 2,
                                       project_after = es\<rparr>)\<rparr>) ''build'' ''Start'' ''Finish'' w0)
       = ''Error''
   \<and> log_queue (run_command_stream
        (env0\<lparr>run_process := (\<lambda>c es. \<lparr>stdout_lines = [''oops'' @ [CHR 0x0A]], ending = Exit 2,
                                       project_after = es\<rparr>)\<rparr>) ''build'' ''Start'' ''Finish'' w0)
       = [''Start'', ''oops'', ''Error: command returned exit code 2'']
   \<and> status_var (run_command_stream
        (env0\<lparr>run_process := (\<lambda>c es. \<lparr>stdout_lines = [], ending = Raise ''Permission denied'',
                                       project_after = es\<rparr>)\<rparr>) ''build'' ''Start'' ''Finish'' w0)
       = ''Error''
   \<and> log_queue (run_command_stream
        (env0\<lparr>run_process := (\<lambda>c es. \<lparr>stdout_lines = [], ending = Raise ''Permission denied'',
                                       project_after = es\<rparr>)\<rparr>) ''build'' ''Start'' ''Finish'' w0)
       = [''Start'', ''Error: Permission denied'']"
proof -
  let ?e2 = "env0\<lparr>run_process := (\<lambda>c es. \<lparr>stdout_lines = [''oops'' @ [CHR 0x0A]], ending = Exit 2,
                                       project_after = es\<rparr>)\<rparr>"
  let ?e3 = "env0\<lparr>run_process := (\<lambda>c es. \<lparr>stdout_lines = [], ending = Raise ''Permission denied'',
                                       project_after = es\<rparr>)\<rparr>"
  have a: "run_process env0 ''build'' (project w0)
      = \<lparr>stdout_lines = [], ending = Exit 0, project_after = project w0\<rparr>"
    by (simp add: env0_def)
  have b: "run_process ?e2 ''build'' (project w0)
      = \<lparr>stdout_lines = [''oops'' @ [CHR 0x0A]], ending = Exit 2, project_after = project w0\<rparr>"
    by simp
  have c: "run_process ?e3 ''build'' (project w0)
      = \<lparr>stdout_lines = [], ending = Raise ''Permission denied'', project_after = project w0\<rparr>"
    by simp
  have q: "log_queue w0 = []" by (simp add: w0_def)
  show ?thesis
    using run_command_stream_outcomes[of env0 "''build''" "''Start''" "''Finish''" w0 0 "''''"]
      run_command_stream_outcomes[of ?e2 "''build''" "''Start''" "''Finish''" w0 2 "''''"]
      run_command_stream_outcomes[of ?e3 "''build''" "''Start''" "''Finish''" w0 0 "''Permission denied''"]
    unfolding a b c
    by (auto simp: q show_int_2 rstrip_newline_def)
qed

section \<open>The log channel\<close>

text \<open>
  Producers and the consumer interleave at the operations of the queue: a \<open>Put\<close> from
  any thread, a \<open>Get\<close> (one iteration of the consumer's loop), or a \<open>Poll\<close> (a whole run of
  the consumer's loop). \<open>puts ops\<close> are the messages put, in order.
\<close>

datatype channel_op = Put string | Get | Poll

fun run_op :: "world \<Rightarrow> channel_op \<Rightarrow> world" where
  "run_op w (Put message) = log message w"
| "run_op w Get = (case poll_iteration w of Inl Empty \<Rightarrow> w | Inr w' \<Rightarrow> w')"
| "run_op w Poll = poll_log_queue_colored w"

definition run_ops :: "channel_op list \<Rightarrow> world \<Rightarrow> world" where
  "run_ops ops w = foldl run_op w ops"

fun puts :: "channel_op list \<Rightarrow> string list" where
  "puts [] = []"
| "puts (Put message # ops) = message # puts ops"
| "puts (Get # ops) = puts ops"
| "puts (Poll # ops) = puts ops"

lemma poll_iteration_Nil: "log_queue w = [] \<Longrightarrow> poll_iteration w = Inl Empty"
  by (simp add: poll_iteration_def get_nowait_def)

lemma poll_iteration_Cons:
  "log_queue w = message # rest \<Longrightarrow>
   poll_iteration w = Inr (insert_segments (parse_ansi (message @ [CHR 0x0A]))
                             (w\<lparr>log_queue := rest, taken := taken w @ [message]\<rparr>))"
  by (simp add: poll_iteration_def get_nowait_def)

lemma poll_loop_queue: "log_queue (poll_loop w) = []"
proof (induction w rule: poll_loop.induct)
  case (1 w)
  show ?case
  proof (cases "log_queue w")
    case Nil
    then show ?thesis by (subst poll_loop.simps) (simp add: poll_iteration_Nil)
  next
    case (Cons message rest)
    show ?thesis
      using "1.IH"[OF poll_iteration_Cons[OF Cons]]
      by (subst poll_loop.simps) (simp add: poll_iteration_Cons[OF Cons])
  qed
qed

lemma poll_loop_taken: "taken (poll_loop w) = taken w @ log_queue w"
proof (induction w rule: poll_loop.induct)
  case (1 w)
  show ?case
  proof (cases "log_queue w")
    case Nil
    then show ?thesis by (subst poll_loop.simps) (simp add: poll_iteration_Nil)
  next
    case (Cons message rest)
    show ?thesis
      using "1.IH"[OF poll_iteration_Cons[OF Cons]] Cons
      by (subst poll_loop.simps) (simp add: poll_iteration_Cons[OF Cons] insert_segments_def)
  qed
qed

lemma poll_loop_textbox:
  "textbox (poll_loop w)
     = textbox w @ concat (map (\<lambda>message. parse_ansi (message @ [CHR 0x0A])) (log_queue w))"
proof (induction w rule: poll_loop.induct)
  case (1 w)
  show ?case
  proof (cases "log_queue w")
    case Nil
    then show ?thesis by (subst poll_loop.simps) (simp add: poll_iteration_Nil)
  next
    case (Cons message rest)
    show ?thesis
      using "1.IH"[OF poll_iteration_Cons[OF Cons]] Cons
      by (subst poll_loop.simps) (simp add: poll_iteration_Cons[OF Cons] insert_segments_def)
  qed
qed

lemma poll_loop_empty: "log_queue w = [] \<Longrightarrow> poll_loop w = w"
  by (subst poll_loop.simps) (simp add: poll_iteration_Nil)

lemma run_op_channel:
  "taken (run_op w op) @ log_queue (run_op w op) = taken w @ log_queue w @ puts [op]"
proof (cases op)
  case (Put message)
  then show ?thesis by simp
next
  case Get
  show ?thesis
  proof (cases "log_queue w")
    case Nil
    with Get show ?thesis by (simp add: poll_iteration_Nil)
  next
    case (Cons message rest)
    with Get show ?thesis by (simp add: poll_iteration_Cons[OF Cons] insert_segments_def)
  qed
next
  case Poll
  then show ?thesis
    by (simp add: poll_log_queue_colored_def poll_loop_queue poll_loop_taken)
qed

lemma puts_Cons: "puts (op # ops) = puts [op] @ puts ops"
  by (cases op) simp_all

lemma run_ops_channel:
  "taken (foldl run_op w ops) @ log_queue (foldl run_op w ops)
     = taken w @ log_queue w @ puts ops"
proof (induction ops arbitrary: w)
  case Nil
  show ?case by simp
next
  case (Cons op ops)
  have "taken (foldl run_op w (op # ops)) @ log_queue (foldl run_op w (op # ops))
      = (taken (run_op w op) @ log_queue (run_op w op)) @ puts ops"
    using Cons.IH[of "run_op w op"] by simp
  also have "\<dots> = (taken w @ log_queue w @ puts [op]) @ puts ops"
    by (simp only: run_op_channel)
  finally show ?case
    by (simp add: puts_Cons[of op ops])
qed

text \<open>
  Claim C8. Whatever the interleaving, the messages taken so far followed by the queue's
  content are the messages put, in order: none is lost, repeated or reordered. A poll
  empties the queue, so after it every message put so far has been taken once. On the
  empty queue \<open>get_nowait\<close> raises \<open>Empty\<close> at once and the poll changes nothing.
\<close>

theorem log_channel_fifo:
  "taken (run_ops ops w) @ log_queue (run_ops ops w) = taken w @ log_queue w @ puts ops
   \<and> log_queue (poll_log_queue_colored w) = []
   \<and> taken (poll_log_queue_colored w) = taken w @ log_queue w
   \<and> taken (poll_log_queue_colored (run_ops ops w)) = taken w @ log_queue w @ puts ops
   \<and> textbox (poll_log_queue_colored w)
       = textbox w @ concat (map (\<lambda>message. parse_ansi (message @ [CHR 0x0A])) (log_queue w))
   \<and> get_nowait [] = Inl Empty
   \<and> (log_queue w = [] \<longrightarrow> poll_log_queue_colored w = w)"
proof -
  have a: "taken (run_ops ops w) @ log_queue (run_ops ops w) = taken w @ log_queue w @ puts ops"
    unfolding run_ops_def by (rule run_ops_channel)
  have "taken (poll_log_queue_colored (run_ops ops w))
      = taken (run_ops ops w) @ log_queue (run_ops ops w)"
    unfolding poll_log_queue_colored_def by (rule poll_loop_taken)
  with a have b: "taken (poll_log_queue_colored (run_ops ops w)) = taken w @ log_queue w @ puts ops"
    by simp
  show ?thesis
    using a b
    by (simp add: poll_log_queue_colored_def poll_loop_queue poll_loop_taken poll_loop_textbox
        poll_loop_empty get_nowait_def)
qed

theorem log_channel_fifo_witness:
  "log_queue w0 = [] \<and> poll_log_queue_colored w0 = w0
   \<and> taken (poll_log_queue_colored (run_ops [Put ''a'', Put ''b'', Get, Put ''c''] w0))
       = [''a'', ''b'', ''c'']"
proof -
  have q: "log_queue w0 = []" "taken w0 = []" by (simp_all add: w0_def)
  show ?thesis
    using log_channel_fifo[of "[Put ''a'', Put ''b'', Get, Put ''c'']" w0]
      log_channel_fifo[of "[]" w0] q
    by simp
qed

section \<open>Events of a run, by kind\<close>

text \<open>
  The steps of a pipeline are the statuses it sets and the commands it starts; a cleanup
  only logs and deletes.
\<close>

fun is_step_event :: "event \<Rightarrow> bool" where
  "is_step_event (EvStatus s) = True"
| "is_step_event (EvPopen command) = True"
| "is_step_event ev = False"

fun is_cleanup_event :: "event \<Rightarrow> bool" where
  "is_cleanup_event (EvLog message) = True"
| "is_cleanup_event (EvRmtree path) = True"
| "is_cleanup_event (EvRemove path) = True"
| "is_cleanup_event ev = False"

lemma emit_fields [simp]:
  "trace (emit evs w) = trace w @ evs"
  "status_var (emit evs w) = status_var w"
  "project (emit evs w) = project w"
  "taken (emit evs w) = taken w"
  "textbox (emit evs w) = textbox w"
proof -
  have "trace (foldl emit1 w evs) = trace w @ evs \<and> status_var (foldl emit1 w evs) = status_var w
      \<and> project (foldl emit1 w evs) = project w \<and> taken (foldl emit1 w evs) = taken w
      \<and> textbox (foldl emit1 w evs) = textbox w"
  proof (induction evs arbitrary: w)
    case Nil
    show ?case by simp
  next
    case (Cons ev evs)
    show ?case using Cons.IH[of "emit1 w ev"] by (cases ev) simp_all
  qed
  then show "trace (emit evs w) = trace w @ evs" "status_var (emit evs w) = status_var w"
    "project (emit evs w) = project w" "taken (emit evs w) = taken w"
    "textbox (emit evs w) = textbox w"
    by (simp_all add: emit_def)
qed

lemma on_exception_fields [simp]:
  "trace (on_exception e w) = trace w @ [EvLog (''Error: '' @ str e)]"
  "log_queue (on_exception e w) = log_queue w @ [''Error: '' @ str e]"
  "status_var (on_exception e w) = status_var w"
  "project (on_exception e w) = project w"
  by (simp_all add: on_exception_def)

lemma delete_folder_events:
  "\<forall>ev \<in> set evs. is_cleanup_event ev \<Longrightarrow>
   \<forall>ev \<in> set (snd (delete_folder directory (es, evs) folder)). is_cleanup_event ev"
  by (auto simp: Let_def split: option.splits fsnode.splits if_splits)

lemma delete_file_events:
  "\<forall>ev \<in> set evs. is_cleanup_event ev \<Longrightarrow>
   \<forall>ev \<in> set (snd (delete_file directory (es, evs) file)). is_cleanup_event ev"
  by (auto simp: Let_def split: option.splits fsnode.splits if_splits)

lemma foldl_delete_folder_events:
  "\<forall>ev \<in> set (snd st). is_cleanup_event ev \<Longrightarrow>
   \<forall>ev \<in> set (snd (foldl (delete_folder directory) st names)). is_cleanup_event ev"
proof (induction names arbitrary: st)
  case Nil
  then show ?case by simp
next
  case (Cons a names)
  obtain es evs where st: "st = (es, evs)" by (cases st)
  have "\<forall>ev \<in> set (snd (delete_folder directory st a)). is_cleanup_event ev"
    unfolding st using Cons.prems delete_folder_events[of evs directory es a] st by simp
  from Cons.IH[OF this] show ?case by simp
qed

lemma foldl_delete_file_events:
  "\<forall>ev \<in> set (snd st). is_cleanup_event ev \<Longrightarrow>
   \<forall>ev \<in> set (snd (foldl (delete_file directory) st names)). is_cleanup_event ev"
proof (induction names arbitrary: st)
  case Nil
  then show ?case by simp
next
  case (Cons a names)
  obtain es evs where st: "st = (es, evs)" by (cases st)
  have "\<forall>ev \<in> set (snd (delete_file directory st a)). is_cleanup_event ev"
    unfolding st using Cons.prems delete_file_events[of evs directory es a] st by simp
  from Cons.IH[OF this] show ?case by simp
qed

lemma delete_listed_events:
  "\<forall>ev \<in> set (snd (delete_listed directory folders files es)). is_cleanup_event ev"
  unfolding delete_listed_def
  by (rule foldl_delete_file_events, rule foldl_delete_folder_events) simp

lemma walk_events:
  "\<forall>ev \<in> set (snd (snd (remove_items_recursively directory folders files denied es))).
      is_cleanup_event ev"
  "\<forall>ev \<in> set (snd (snd (walk_entries directory folders files es))). is_cleanup_event ev"
proof (induction directory folders files denied es and directory folders files es
    rule: remove_items_recursively_walk_entries.induct)
  case (1 directory folders files denied es)
  show ?case
    using "1.IH" delete_listed_events[of directory folders files es]
    by (subst remove_items_recursively.simps) (auto simp: Let_def split: prod.splits)
next
  case (2 directory folders files)
  show ?case by simp
next
  case (3 directory folders files entry x rest)
  show ?case
  proof (cases x)
    case (File locked)
    then show ?thesis using "3.IH"(1) by (auto split: prod.splits)
  next
    case (Dir denied sub)
    then show ?thesis
      using "3.IH"(2,3) by (auto split: prod.splits option.splits)
  qed
qed

lemma clean_plugins_folder_events:
  "\<forall>ev \<in> set (snd (snd (clean_plugins_folder script_directory project_name es))).
      is_cleanup_event ev"
proof (cases "map_of es ''Plugins''")
  case None
  then show ?thesis by (simp add: clean_plugins_folder_def)
next
  case (Some x)
  show ?thesis
  proof (cases x)
    case (File locked)
    with Some show ?thesis by (simp add: clean_plugins_folder_def)
  next
    case (Dir denied sub)
    obtain r sub' evs where c:
      "remove_items_recursively (join script_directory ''Plugins'') plugin_folders
         [project_name @ ''.sln'', ''.vsconfig''] denied sub = (r, sub', evs)"
      by (cases "remove_items_recursively (join script_directory ''Plugins'') plugin_folders
         [project_name @ ''.sln'', ''.vsconfig''] denied sub")
    have "\<forall>ev \<in> set evs. is_cleanup_event ev"
      using walk_events(1)[of "join script_directory ''Plugins''" plugin_folders
          "[project_name @ ''.sln'', ''.vsconfig'']" denied sub] c by simp
    with Some Dir c show ?thesis
      by (simp add: clean_plugins_folder_def Let_def)
  qed
qed

lemma clean_root_files_events:
  "\<forall>ev \<in> set (snd st). is_cleanup_event ev \<Longrightarrow>
   \<forall>ev \<in> set (snd (clean_root_files script_directory st)). is_cleanup_event ev"
proof (cases "glob_uproject (fst st)")
  case Nil
  assume "\<forall>ev \<in> set (snd st). is_cleanup_event ev"
  with Nil show ?thesis by (simp add: clean_root_files_def)
next
  case (Cons project_file others)
  assume a: "\<forall>ev \<in> set (snd st). is_cleanup_event ev"
  have e: "clean_root_files script_directory st
      = foldl (delete_file script_directory) st
          [splitext_root project_file @ ''.sln'', ''.vsconfig'']"
    by (simp only: clean_root_files_def Let_def Cons list.case)
  show ?thesis
    unfolding e by (rule foldl_delete_file_events[OF a])
qed

lemma clean_files_and_folders_events:
  "\<forall>ev \<in> set (snd (snd (clean_files_and_folders script_directory project_name es))).
      is_cleanup_event ev"
proof -
  let ?st1 = "foldl (delete_folder script_directory)
                  (es, [EvLog ''Cleaning project root folders...'']) root_folders"
  let ?st2 = "clean_root_files script_directory
                  (fst ?st1, snd ?st1 @ [EvLog ''Cleaning project root files...''])"
  have a: "\<forall>ev \<in> set (snd ?st1). is_cleanup_event ev"
    by (rule foldl_delete_folder_events) simp
  have b: "\<forall>ev \<in> set (snd ?st2). is_cleanup_event ev"
    by (rule clean_root_files_events) (use a in auto)
  obtain r es' evs where c: "clean_plugins_folder script_directory project_name (fst ?st2) = (r, es', evs)"
    by (cases "clean_plugins_folder script_directory project_name (fst ?st2)")
  have d: "\<forall>ev \<in> set evs. is_cleanup_event ev"
    using clean_plugins_folder_events[of script_directory project_name "fst ?st2"] c by simp
  show ?thesis
    unfolding clean_files_and_folders_def Let_def c
    using b d by (cases r) auto
qed

lemma cleanup_no_step: "is_cleanup_event ev \<Longrightarrow> \<not> is_step_event ev"
  by (cases ev) simp_all

section \<open>The compile pipeline, stage by stage\<close>

text \<open>
  \<open>preamble_log\<close> are the messages of a run up to the resolved engine root,
  \<open>stream_events\<close> the events of one call of \<open>run_command_stream\<close> for a command run in
  the directory \<open>es\<close>.
\<close>

definition preamble_log :: "env \<Rightarrow> string \<Rightarrow> string list \<Rightarrow> string \<Rightarrow> string list" where
  "preamble_log env project_file others version =
     (if others \<noteq> [] then [''More than one .uproject file found. Selecting the first one.'']
      else [])
     @ [''.uproject file found: '' @ join (cwd env) project_file,
        ''Unreal Engine version set in project: '' @ version,
        ''Target to compile: '' @ splitext_root project_file @ ''Editor'']
     @ snd (resolve_engine_path env version)"

definition stream_events :: "env \<Rightarrow> string \<Rightarrow> string \<Rightarrow> string \<Rightarrow> dirents \<Rightarrow> event list" where
  "stream_events env command start finish es =
     [EvStatus start, EvLog start, EvPopen command]
     @ map EvLog (map rstrip_newline (stdout_lines (run_process env command es)))
     @ ending_events finish (ending (run_process env command es))"

definition tool_missing_message :: "string \<Rightarrow> string" where
  "tool_missing_message root = ''File '' @ quoted (build_tool_dll_of root) @ '' not found.''"

definition compiled_message :: string where
  "compiled_message = CHR 0x0A # ''Project files compiled successfully.''"

lemma logs_append: "logs (xs @ ys) w = logs ys (logs xs w)"
  by (simp add: logs_def)

lemma logs_Cons: "logs (x # xs) w = logs xs (log x w)"
  by (simp add: logs_def)

lemma logs_Nil: "logs [] w = w"
  by (simp add: logs_def)

lemma run_build_process_resolved:
  assumes "glob_uproject (project w) = project_file # others"
    and "load_descriptor env (join (cwd env) project_file) = Inr (Some version)"
    and "version \<noteq> []"
    and "fst (resolve_engine_path env version) = Inr root"
  shows "run_build_process env open_sln open_uproject w
     = clean_and_build env open_sln open_uproject (cwd env) (splitext_root project_file)
         project_file root (logs (preamble_log env project_file others version) w)"
proof -
  obtain logged where r: "resolve_engine_path env version = (Inr root, logged)"
    using assms(4) by (cases "resolve_engine_path env version") auto
  show ?thesis
    using assms(1-3) r
    by (simp add: run_build_process_def Let_def falsy_def preamble_log_def logs_append
        logs_Cons logs_Nil)
qed

lemma clean_and_build_missing:
  "\<not> path_exists env (build_tool_dll_of root) \<Longrightarrow>
   clean_and_build env open_sln open_uproject script_directory project_name project_file root w
     = log (tool_missing_message root) w"
  by (simp add: clean_and_build_def Let_def tool_missing_message_def)

lemma clean_and_build_cleaned:
  assumes "path_exists env (build_tool_dll_of root)"
    and "fst (clean_files_and_folders script_directory project_name (project w)) = None"
  shows "clean_and_build env open_sln open_uproject script_directory project_name project_file
           root w
     = regenerate_and_compile env open_sln open_uproject script_directory project_name
         project_file root
         (compile_command_of (build_tool_dll_of root) (project_name @ ''Editor'')
            (join script_directory project_file))
         (emit (snd (snd (clean_files_and_folders script_directory project_name (project w))))
            ((log (CHR 0x0A # ''=== Cleaning project files for rebuild ==='') w)
               \<lparr>project := fst (snd (clean_files_and_folders script_directory project_name
                                       (project w)))\<rparr>))"
proof -
  obtain es' evs where c:
    "clean_files_and_folders script_directory project_name (project w) = (None, es', evs)"
    using assms(2)
    by (cases "clean_files_and_folders script_directory project_name (project w)") auto
  show ?thesis
    using assms(1) c by (simp add: clean_and_build_def Let_def)
qed

lemma startfile_trace:
  "startfile env path w = (r, w') \<Longrightarrow>
   \<exists>evs. trace w' = trace w @ evs \<and> filter is_step_event evs = []
     \<and> status_var w' = status_var w \<and> project w' = project w"
  by (auto simp: startfile_def split: option.splits)

lemma open_results_trace:
  "\<exists>evs. trace (open_results env open_sln open_uproject script_directory project_name
             project_file w) = trace w @ evs
     \<and> filter is_step_event evs = []"
proof -
  let ?sln = "join script_directory (project_name @ ''.sln'')"
  let ?up = "join script_directory project_file"
  define r1 where "r1 = (if open_sln then
                  (if isfile (project w) (project_name @ ''.sln'')
                   then startfile env ?sln (log ''Opening SLN file...'' w)
                   else (None, log ''SLN file not found to open.'' w))
                else (None, w))"
  obtain e1 w1 where r1: "r1 = (e1, w1)" by (cases r1)
  have a: "\<exists>evs. trace w1 = trace w @ evs \<and> filter is_step_event evs = []"
  proof (cases "open_sln \<and> isfile (project w) (project_name @ ''.sln'')")
    case True
    then have "startfile env ?sln (log ''Opening SLN file...'' w) = (e1, w1)"
      using r1 r1_def by simp
    from startfile_trace[OF this] show ?thesis by auto
  next
    case False
    then show ?thesis using r1 r1_def by (auto split: if_splits)
  qed
  then obtain evs1 where t1: "trace w1 = trace w @ evs1" "filter is_step_event evs1 = []"
    by blast
  have res: "open_results env open_sln open_uproject script_directory project_name project_file w
      = (case (e1, w1) of
           (Some e, w1) \<Rightarrow> on_exception e w1
         | (None, w1) \<Rightarrow>
             (if open_uproject then
                (if isfile (project w1) project_file
                 then (case startfile env ?up (log ''Opening .uproject file...'' w1) of
                         (Some e, w2) \<Rightarrow> on_exception e w2
                       | (None, w2) \<Rightarrow> w2)
                 else log ''.uproject file not found to open.'' w1)
              else w1))"
    unfolding open_results_def Let_def r1_def[symmetric] r1 ..
  show ?thesis
  proof (cases e1)
    case (Some e)
    then show ?thesis using res t1 by simp
  next
    case None
    show ?thesis
    proof (cases "open_uproject \<and> isfile (project w1) project_file")
      case False
      then show ?thesis using res None t1 by (auto split: if_splits)
    next
      case True
      obtain e2 w2 where s: "startfile env ?up (log ''Opening .uproject file...'' w1) = (e2, w2)"
        by (cases "startfile env ?up (log ''Opening .uproject file...'' w1)")
      from startfile_trace[OF s] obtain evs2 where
        t2: "trace w2 = trace w1 @ [EvLog ''Opening .uproject file...''] @ evs2"
          "filter is_step_event evs2 = []"
        by auto
      show ?thesis
        using res None True s t1 t2 by (cases e2) auto
    qed
  qed
qed

lemma open_results_status:
  "status_var (open_results env open_sln open_uproject script_directory project_name
      project_file w) = status_var w"
  by (auto simp: open_results_def Let_def startfile_def split: option.splits prod.splits)

lemma run_command_stream_trace':
  "trace (run_command_stream env command start finish w)
     = trace w @ stream_events env command start finish (project w)"
  by (simp add: run_command_stream_trace stream_events_def)


lemma regenerate_and_compile_trace:
  assumes "path_exists env (build_script_path_of root)"
    and "bc = build_command_of (build_script_path_of root) (join script_directory project_file)"
  shows "\<exists>tail.
     trace (regenerate_and_compile env open_sln open_uproject script_directory project_name
              project_file root cc w)
       = trace w
         @ [EvLog (CHR 0x0A # ''=== Recreating SLN file (calling Build.bat) ===''),
            EvLog (''Executing: '' @ bc)]
         @ stream_events env bc ''Recreating SLN'' ''SLN file recreated successfully'' (project w)
         @ [EvLog (CHR 0x0A # ''=== Compiling the project ===''),
            EvLog (''Executing: '' @ cc)]
         @ stream_events env cc ''Compiling project'' ''Project compiled successfully''
             (project_after (run_process env bc (project w)))
         @ [EvLog compiled_message] @ tail
     \<and> filter is_step_event tail = []"
proof -
  let ?w3 = "run_command_stream env bc ''Recreating SLN'' ''SLN file recreated successfully''
      (log (''Executing: '' @ bc)
         (log (CHR 0x0A # ''=== Recreating SLN file (calling Build.bat) ==='') w))"
  let ?w7 = "log compiled_message
      (run_command_stream env cc ''Compiling project'' ''Project compiled successfully''
         (log (''Executing: '' @ cc) (log (CHR 0x0A # ''=== Compiling the project ==='') ?w3)))"
  have r: "regenerate_and_compile env open_sln open_uproject script_directory project_name
              project_file root cc w
      = open_results env open_sln open_uproject script_directory project_name project_file ?w7"
    using assms by (simp add: regenerate_and_compile_def Let_def compiled_message_def)
  obtain tail where t: "trace (open_results env open_sln open_uproject script_directory
      project_name project_file ?w7) = trace ?w7 @ tail" "filter is_step_event tail = []"
    using open_results_trace by blast
  show ?thesis
    unfolding r t(1)
    using t(2) by (simp add: run_command_stream_trace' run_command_stream_project)
qed

lemma regenerate_and_compile_status:
  assumes "path_exists env (build_script_path_of root)"
    and "bc = build_command_of (build_script_path_of root) (join script_directory project_file)"
  shows "status_var (regenerate_and_compile env open_sln open_uproject script_directory
              project_name project_file root cc w)
     = (if ending (run_process env cc (project_after (run_process env bc (project w)))) = Exit 0
        then ''Done'' else ''Error'')"
  using assms
  by (simp add: regenerate_and_compile_def Let_def open_results_status
      run_command_stream_status run_command_stream_project)

text \<open>
  In \<open>env1\<close> every engine path exists and every command exits with code 1.
\<close>

definition env1 :: env where
  "env1 = env0\<lparr>exists_on_disk := (\<lambda>path. True),
               run_process := (\<lambda>command es.
                  \<lparr>stdout_lines = [], ending = Exit 1, project_after = es\<rparr>)\<rparr>"

lemma fixture_glob: "glob_uproject (project w0) = [''Game.uproject'']"
  by (simp add: w0_def glob_uproject_def is_uproject_name_def)

lemma fixture_name: "splitext_root ''Game.uproject'' = ''Game''"
  by (simp add: splitext_root_def)

lemma fixture_resolve0: "fst (resolve_engine_path env0 ''5.3'') = Inr (default_engine_path ''5.3'')"
  by (simp add: env0_def resolve_engine_path_def falsy_def Let_def
      find_unreal_engine_path_from_registry_def)

lemma fixture_resolve1: "fst (resolve_engine_path env1 ''5.3'') = Inr (default_engine_path ''5.3'')"
  by (simp add: env1_def env0_def resolve_engine_path_def falsy_def Let_def
      find_unreal_engine_path_from_registry_def)

lemma fixture_clean:
  "fst (clean_files_and_folders (cwd env1) ''Game'' (project w0)) = None"
  by (simp add: clean_files_and_folders_def root_folders_def clean_root_files_def
      clean_plugins_folder_def w0_def Let_def glob_uproject_def is_uproject_name_def)

section \<open>The compile pipeline: a missing build tool\<close>

text \<open>
  Claim C1 says that the pipeline reports the status \<open>Error\<close> when the build tool is
  missing. Line 265 returns after the log line and no branch of \<open>run_build_process\<close>
  sets the status: it stays what \<open>start_compile_thread\<close> set.
\<close>

theorem tool_missing_status_counterexample:
  "glob_uproject (project w0) = [''Game.uproject'']
   \<and> load_descriptor env0 (join (cwd env0) ''Game.uproject'') = Inr (Some ''5.3'')
   \<and> environ_UNREAL_ENGINE_PATH env0 = None
   \<and> registry env0 ''5.3'' = KeyNotFound
   \<and> fst (resolve_engine_path env0 ''5.3'') = Inr (default_engine_path ''5.3'')
   \<and> \<not> path_exists env0 (build_tool_dll_of (default_engine_path ''5.3''))
   \<and> status_var (start_compile_thread env0 False False w0) = ''Compiling Editor...''
   \<and> status_var (start_compile_thread env0 False False w0) \<noteq> ''Error''"
proof -
  have g: "glob_uproject (project (set_status ''Compiling Editor...'' w0)) = ''Game.uproject'' # []"
    using fixture_glob by simp
  have d: "load_descriptor env0 (join (cwd env0) ''Game.uproject'') = Inr (Some ''5.3'')"
    by (simp add: env0_def)
  have m: "\<not> path_exists env0 (build_tool_dll_of (default_engine_path ''5.3''))"
    by (simp add: env0_def path_exists_def)
  have "start_compile_thread env0 False False w0
      = log (tool_missing_message (default_engine_path ''5.3''))
          (logs (preamble_log env0 ''Game.uproject'' [] ''5.3'')
             (set_status ''Compiling Editor...'' w0))"
    unfolding start_compile_thread_def
    using run_build_process_resolved[OF g d _ fixture_resolve0] clean_and_build_missing[OF m]
    by simp
  then have "status_var (start_compile_thread env0 False False w0) = ''Compiling Editor...''"
    by simp
  then show ?thesis
    using fixture_glob d m fixture_resolve0 by (simp add: env0_def)
qed

text \<open>
  Claim C1, amended. When \<open>UnrealBuildTool.dll\<close> does not exist under the resolved engine
  root, the last message logged names the missing file, the run consists of the status
  set by \<open>start_compile_thread\<close> and of log messages only (no process is started), and
  the status is left at \<open>Compiling Editor...\<close>.
\<close>

theorem tool_missing_aborts:
  assumes "glob_uproject (project w) = project_file # others"
    and "load_descriptor env (join (cwd env) project_file) = Inr (Some version)"
    and "version \<noteq> []"
    and "fst (resolve_engine_path env version) = Inr root"
    and "\<not> path_exists env (build_tool_dll_of root)"
  shows "\<exists>messages.
       log_queue (start_compile_thread env open_sln open_uproject w)
         = log_queue w @ messages @ [''File '' @ quoted (build_tool_dll_of root) @ '' not found.'']
     \<and> trace (start_compile_thread env open_sln open_uproject w)
         = trace w @ [EvStatus ''Compiling Editor...'']
           @ map EvLog (messages @ [''File '' @ quoted (build_tool_dll_of root) @ '' not found.''])
     \<and> status_var (start_compile_thread env open_sln open_uproject w) = ''Compiling Editor...''"
proof -
  have g: "glob_uproject (project (set_status ''Compiling Editor...'' w)) = project_file # others"
    using assms(1) by simp
  have "start_compile_thread env open_sln open_uproject w
      = log (tool_missing_message root)
          (logs (preamble_log env project_file others version)
             (set_status ''Compiling Editor...'' w))"
    unfolding start_compile_thread_def
    using run_build_process_resolved[OF g assms(2,3,4)] clean_and_build_missing[OF assms(5)]
    by simp
  then show ?thesis
    by (simp add: tool_missing_message_def)
qed

theorem tool_missing_aborts_witness:
  "log_queue (start_compile_thread env0 False False w0)
     = log_queue w0 @ preamble_log env0 ''Game.uproject'' [] ''5.3''
       @ [''File '' @ quoted (build_tool_dll_of (default_engine_path ''5.3'')) @ '' not found.'']
   \<and> trace (start_compile_thread env0 False False w0)
     = trace w0 @ [EvStatus ''Compiling Editor...'']
       @ map EvLog (preamble_log env0 ''Game.uproject'' [] ''5.3''
          @ [''File '' @ quoted (build_tool_dll_of (default_engine_path ''5.3'')) @ '' not found.''])
   \<and> status_var (start_compile_thread env0 False False w0) = ''Compiling Editor...''"
proof -
  have d: "load_descriptor env0 (join (cwd env0) ''Game.uproject'') = Inr (Some ''5.3'')"
    by (simp add: env0_def)
  have m: "\<not> path_exists env0 (build_tool_dll_of (default_engine_path ''5.3''))"
    by (simp add: env0_def path_exists_def)
  have v: "''5.3'' \<noteq> []" by simp
  from tool_missing_aborts[OF fixture_glob d v fixture_resolve0 m, of False False]
  obtain messages where
    q: "log_queue (start_compile_thread env0 False False w0)
         = log_queue w0 @ messages
           @ [''File '' @ quoted (build_tool_dll_of (default_engine_path ''5.3'')) @ '' not found.'']"
    and t: "trace (start_compile_thread env0 False False w0)
         = trace w0 @ [EvStatus ''Compiling Editor...'']
           @ map EvLog (messages
              @ [''File '' @ quoted (build_tool_dll_of (default_engine_path ''5.3''))
                 @ '' not found.''])"
    and s: "status_var (start_compile_thread env0 False False w0) = ''Compiling Editor...''"
    by blast
  have g: "glob_uproject (project (set_status ''Compiling Editor...'' w0)) = ''Game.uproject'' # []"
    using fixture_glob by simp
  have "start_compile_thread env0 False False w0
      = log (tool_missing_message (default_engine_path ''5.3''))
          (logs (preamble_log env0 ''Game.uproject'' [] ''5.3'')
             (set_status ''Compiling Editor...'' w0))"
    unfolding start_compile_thread_def
    using run_build_process_resolved[OF g d v fixture_resolve0] clean_and_build_missing[OF m]
    by simp
  then have "log_queue (start_compile_thread env0 False False w0)
         = log_queue w0 @ preamble_log env0 ''Game.uproject'' [] ''5.3''
           @ [''File '' @ quoted (build_tool_dll_of (default_engine_path ''5.3'')) @ '' not found.'']"
    by (simp add: tool_missing_message_def)
  with q have "messages = preamble_log env0 ''Game.uproject'' [] ''5.3''"
    by simp
  with q t s show ?thesis by simp
qed

text \<open>
  Claim C10. The existence of the build tool is checked before the cleanup: when
  \<open>UnrealBuildTool.dll\<close> is missing under the resolved engine root, the run logs and
  returns, and the working directory is what it was.
\<close>

theorem tool_missing_keeps_project:
  assumes "glob_uproject (project w) = project_file # others"
    and "load_descriptor env (join (cwd env) project_file) = Inr (Some version)"
    and "version \<noteq> []"
    and "fst (resolve_engine_path env version) = Inr root"
    and "\<not> path_exists env (build_tool_dll_of root)"
  shows "project (run_build_process env open_sln open_uproject w) = project w
     \<and> (\<exists>messages. trace (run_build_process env open_sln open_uproject w)
           = trace w @ map EvLog messages)"
proof -
  have "run_build_process env open_sln open_uproject w
      = log (tool_missing_message root) (logs (preamble_log env project_file others version) w)"
    using run_build_process_resolved[OF assms(1,2,3,4)] clean_and_build_missing[OF assms(5)]
    by simp
  then have "project (run_build_process env open_sln open_uproject w) = project w"
    and "trace (run_build_process env open_sln open_uproject w)
      = trace w @ map EvLog (preamble_log env project_file others version
                             @ [tool_missing_message root])"
    by simp_all
  then show ?thesis by blast
qed

theorem tool_missing_keeps_project_witness:
  "project (run_build_process env0 True True w0)
     = [(''Game.uproject'', File False), (''Saved'', Dir False [(''x.txt'', File False)])]
   \<and> (\<exists>messages. trace (run_build_process env0 True True w0) = map EvLog messages)"
proof -
  have d: "load_descriptor env0 (join (cwd env0) ''Game.uproject'') = Inr (Some ''5.3'')"
    by (simp add: env0_def)
  have m: "\<not> path_exists env0 (build_tool_dll_of (default_engine_path ''5.3''))"
    by (simp add: env0_def path_exists_def)
  have v: "''5.3'' \<noteq> []" by simp
  show ?thesis
    using tool_missing_keeps_project[OF fixture_glob d v fixture_resolve0 m, of True True]
    by (simp add: w0_def)
qed

section \<open>The compile pipeline: the two streamed steps\<close>

lemma run_build_process_trace:
  assumes "glob_uproject (project w) = project_file # others"
    and "load_descriptor env (join (cwd env) project_file) = Inr (Some version)"
    and "version \<noteq> []"
    and "fst (resolve_engine_path env version) = Inr root"
    and "path_exists env (build_tool_dll_of root)"
    and "fst (clean_files_and_folders (cwd env) (splitext_root project_file) (project w)) = None"
    and "path_exists env (build_script_path_of root)"
    and "bc = build_command_of (build_script_path_of root) (join (cwd env) project_file)"
    and "cc = compile_command_of (build_tool_dll_of root)
                (splitext_root project_file @ ''Editor'') (join (cwd env) project_file)"
    and "es' = fst (snd (clean_files_and_folders (cwd env) (splitext_root project_file)
                          (project w)))"
  shows "\<exists>head tail.
       trace (run_build_process env open_sln open_uproject w)
         = trace w @ head
           @ stream_events env bc ''Recreating SLN'' ''SLN file recreated successfully'' es'
           @ [EvLog (CHR 0x0A # ''=== Compiling the project ===''), EvLog (''Executing: '' @ cc)]
           @ stream_events env cc ''Compiling project'' ''Project compiled successfully''
               (project_after (run_process env bc es'))
           @ [EvLog compiled_message] @ tail
     \<and> filter is_step_event head = [] \<and> filter is_step_event tail = []
     \<and> status_var (run_build_process env open_sln open_uproject w)
         = (if ending (run_process env cc (project_after (run_process env bc es'))) = Exit 0
            then ''Done'' else ''Error'')"
proof -
  let ?w1 = "logs (preamble_log env project_file others version) w"
  let ?evs = "snd (snd (clean_files_and_folders (cwd env) (splitext_root project_file)
                          (project w)))"
  let ?w2 = "emit ?evs ((log (CHR 0x0A # ''=== Cleaning project files for rebuild ==='') ?w1)
               \<lparr>project := es'\<rparr>)"
  have c: "fst (clean_files_and_folders (cwd env) (splitext_root project_file) (project ?w1))
      = None"
    using assms(6) by simp
  have r: "run_build_process env open_sln open_uproject w
      = regenerate_and_compile env open_sln open_uproject (cwd env) (splitext_root project_file)
          project_file root cc ?w2"
    using run_build_process_resolved[OF assms(1,2,3,4)]
      clean_and_build_cleaned[OF assms(5) c] assms(9,10)
    by simp
  have p2: "project ?w2 = es'" by simp
  have t2: "trace ?w2 = trace w @ map EvLog (preamble_log env project_file others version)
      @ [EvLog (CHR 0x0A # ''=== Cleaning project files for rebuild ==='')] @ ?evs"
    by simp
  have ne: "filter is_step_event ?evs = []"
    using clean_files_and_folders_events[of "cwd env" "splitext_root project_file" "project w"]
      cleanup_no_step
    by (auto simp: filter_empty_conv)
  from regenerate_and_compile_trace[OF assms(7,8), of open_sln open_uproject
      "splitext_root project_file" cc ?w2]
  obtain tail where t:
    "trace (regenerate_and_compile env open_sln open_uproject (cwd env)
              (splitext_root project_file) project_file root cc ?w2)
       = trace ?w2
         @ [EvLog (CHR 0x0A # ''=== Recreating SLN file (calling Build.bat) ===''),
            EvLog (''Executing: '' @ bc)]
         @ stream_events env bc ''Recreating SLN'' ''SLN file recreated successfully''
             (project ?w2)
         @ [EvLog (CHR 0x0A # ''=== Compiling the project ===''),
            EvLog (''Executing: '' @ cc)]
         @ stream_events env cc ''Compiling project'' ''Project compiled successfully''
             (project_after (run_process env bc (project ?w2)))
         @ [EvLog compiled_message] @ tail"
    "filter is_step_event tail = []"
    by blast
  let ?head = "map EvLog (preamble_log env project_file others version)
      @ [EvLog (CHR 0x0A # ''=== Cleaning project files for rebuild ==='')] @ ?evs
      @ [EvLog (CHR 0x0A # ''=== Recreating SLN file (calling Build.bat) ===''),
         EvLog (''Executing: '' @ bc)]"
  have h: "filter is_step_event ?head = []"
    using ne by (simp add: filter_empty_conv)
  have tr: "trace (run_build_process env open_sln open_uproject w)
         = trace w @ ?head
           @ stream_events env bc ''Recreating SLN'' ''SLN file recreated successfully'' es'
           @ [EvLog (CHR 0x0A # ''=== Compiling the project ===''), EvLog (''Executing: '' @ cc)]
           @ stream_events env cc ''Compiling project'' ''Project compiled successfully''
               (project_after (run_process env bc es'))
           @ [EvLog compiled_message] @ tail"
    unfolding r t(1) p2 t2 by simp
  have st: "status_var (run_build_process env open_sln open_uproject w)
         = (if ending (run_process env cc (project_after (run_process env bc es'))) = Exit 0
            then ''Done'' else ''Error'')"
    unfolding r regenerate_and_compile_status[OF assms(7,8)] p2 ..
  show ?thesis
    using tr h t(2) st by blast
qed


lemma fixture_facts:
  "load_descriptor env1 (join (cwd env1) ''Game.uproject'') = Inr (Some ''5.3'')"
  "path_exists env1 (build_tool_dll_of (default_engine_path ''5.3''))"
  "path_exists env1 (build_script_path_of (default_engine_path ''5.3''))"
  by (simp_all add: env1_def env0_def path_exists_def build_tool_dll_of_def
      build_script_path_of_def join_def)

lemma fixture_run:
  "run_process env1 command es = \<lparr>stdout_lines = [], ending = Exit 1, project_after = es\<rparr>"
  by (simp add: env1_def)


text \<open>
  Claim C9. In a run that reaches the compile step, the line
  \<open>Project files compiled successfully.\<close> is logged after the compile command has run
  and its outcome has been reported, whatever the outcome: also when the status is
  \<open>Error\<close>.
\<close>

theorem success_line_after_compile:
  assumes "glob_uproject (project w) = project_file # others"
    and "load_descriptor env (join (cwd env) project_file) = Inr (Some version)"
    and "version \<noteq> []"
    and "fst (resolve_engine_path env version) = Inr root"
    and "path_exists env (build_tool_dll_of root)"
    and "fst (clean_files_and_folders (cwd env) (splitext_root project_file) (project w)) = None"
    and "path_exists env (build_script_path_of root)"
    and "build_command
           = build_command_of (build_script_path_of root) (join (cwd env) project_file)"
    and "compile_command
           = compile_command_of (build_tool_dll_of root)
               (splitext_root project_file @ ''Editor'') (join (cwd env) project_file)"
    and "es' = fst (snd (clean_files_and_folders (cwd env) (splitext_root project_file)
                          (project w)))"
    and "compilation
           = run_process env compile_command
               (project_after (run_process env build_command es'))"
  shows "\<exists>before streamed tail.
       trace (run_build_process env open_sln open_uproject w)
         = trace w @ before @ [EvPopen compile_command]
           @ map EvLog streamed @ ending_events ''Project compiled successfully''
                                    (ending compilation)
           @ [EvLog (CHR 0x0A # ''Project files compiled successfully.'')] @ tail
     \<and> filter is_step_event tail = []
     \<and> status_var (run_build_process env open_sln open_uproject w)
         = (if ending compilation = Exit 0 then ''Done'' else ''Error'')"
proof -
  from run_build_process_trace[OF assms(1-10), of open_sln open_uproject]
  obtain head tail where
    t: "trace (run_build_process env open_sln open_uproject w)
         = trace w @ head
           @ stream_events env build_command ''Recreating SLN''
               ''SLN file recreated successfully'' es'
           @ [EvLog (CHR 0x0A # ''=== Compiling the project ===''),
              EvLog (''Executing: '' @ compile_command)]
           @ stream_events env compile_command ''Compiling project''
               ''Project compiled successfully''
               (project_after (run_process env build_command es'))
           @ [EvLog compiled_message] @ tail"
    and h: "filter is_step_event tail = []"
    and s: "status_var (run_build_process env open_sln open_uproject w)
         = (if ending (run_process env compile_command
                         (project_after (run_process env build_command es'))) = Exit 0
            then ''Done'' else ''Error'')"
    by blast
  let ?before = "head
           @ stream_events env build_command ''Recreating SLN''
               ''SLN file recreated successfully'' es'
           @ [EvLog (CHR 0x0A # ''=== Compiling the project ===''),
              EvLog (''Executing: '' @ compile_command),
              EvStatus ''Compiling project'', EvLog ''Compiling project'']"
  let ?streamed = "map rstrip_newline (stdout_lines compilation)"
  have "trace (run_build_process env open_sln open_uproject w)
         = trace w @ ?before @ [EvPopen compile_command]
           @ map EvLog ?streamed @ ending_events ''Project compiled successfully''
                                    (ending compilation)
           @ [EvLog (CHR 0x0A # ''Project files compiled successfully.'')] @ tail"
    unfolding t using assms(11) by (simp add: stream_events_def compiled_message_def)
  with h s assms(11) show ?thesis by blast
qed

theorem success_line_after_compile_witness:
  "ending (run_process env1
        (compile_command_of (build_tool_dll_of (default_engine_path ''5.3''))
           ''GameEditor'' (join (cwd env1) ''Game.uproject''))
        (project w0)) = Exit 1
   \<and> (\<exists>before streamed tail.
       trace (run_build_process env1 False False w0)
         = before
           @ [EvPopen (compile_command_of (build_tool_dll_of (default_engine_path ''5.3''))
                         ''GameEditor'' (join (cwd env1) ''Game.uproject''))]
           @ map EvLog streamed
           @ [EvStatus ''Error'', EvLog ''Error: command returned exit code 1'']
           @ [EvLog (CHR 0x0A # ''Project files compiled successfully.'')] @ tail)
   \<and> status_var (run_build_process env1 False False w0) = ''Error''"
proof -
  have v: "''5.3'' \<noteq> []" by simp
  have c: "fst (clean_files_and_folders (cwd env1) (splitext_root ''Game.uproject'') (project w0))
      = None"
    using fixture_clean by (simp add: fixture_name)
  have t0: "trace w0 = []" by (simp add: w0_def)
  have i: "show_int 1 = ''1''"
    by (simp add: show_int_def show_nat.simps digit_def)
  from success_line_after_compile[OF fixture_glob fixture_facts(1) v fixture_resolve1
      fixture_facts(2) c fixture_facts(3) refl refl refl refl, of False False]
  obtain before streamed tail where
    "trace (run_build_process env1 False False w0)
       = before
         @ [EvPopen (compile_command_of (build_tool_dll_of (default_engine_path ''5.3''))
                       ''GameEditor'' (join (cwd env1) ''Game.uproject''))]
         @ map EvLog streamed @ [EvStatus ''Error'', EvLog ''Error: command returned exit code 1'']
         @ [EvLog (CHR 0x0A # ''Project files compiled successfully.'')] @ tail"
    "status_var (run_build_process env1 False False w0) = ''Error''"
    by (auto simp: fixture_run fixture_name t0 ending_events_def i)
  then show ?thesis
    unfolding fixture_run by (simp, blast)
qed

section \<open>The cleanup: what it deletes and what it leaves\<close>

text \<open>
  \<open>lookup_path es path\<close> is the node at a path of names below a directory with entries
  \<open>es\<close>, and \<open>same_kind\<close> holds of a file and itself, and of a directory and the same
  directory with other content.
\<close>

fun lookup_path :: "dirents \<Rightarrow> string list \<Rightarrow> fsnode option" where
  "lookup_path es [] = None"
| "lookup_path es [name] = map_of es name"
| "lookup_path es (name # next # names) =
     (case map_of es name of
        Some (Dir denied sub) \<Rightarrow> lookup_path sub (next # names)
      | _ \<Rightarrow> None)"

fun same_kind :: "fsnode \<Rightarrow> fsnode \<Rightarrow> bool" where
  "same_kind (File a) (File b) = (a = b)"
| "same_kind (Dir a es) (Dir b es') = (a = b)"
| "same_kind x y = False"

definition kept :: "string list \<Rightarrow> dirents \<Rightarrow> dirents \<Rightarrow> bool" where
  "kept names es es' =
     (\<forall>path x. (\<forall>n \<in> set path. n \<notin> set names) \<and> lookup_path es path = Some x
        \<longrightarrow> (\<exists>x'. lookup_path es' path = Some x' \<and> same_kind x x'))"





lemma kept_mono: "set names \<subseteq> set names' \<Longrightarrow> kept names es es' \<Longrightarrow> kept names' es es'"
  unfolding kept_def by blast













text \<open>
  The path an event deletes, and \<open>is_under base directory\<close>: the path \<open>directory\<close> is
  \<open>base\<close> or continues \<open>base\<close> after a separator. \<open>deletes_where P names evs\<close>: every
  deletion among the events is of a listed name in a directory that satisfies \<open>P\<close>.
\<close>

fun deleted_path :: "event \<Rightarrow> string option" where
  "deleted_path (EvRmtree path) = Some path"
| "deleted_path (EvRemove path) = Some path"
| "deleted_path ev = None"


definition deletes_where :: "(string \<Rightarrow> bool) \<Rightarrow> string list \<Rightarrow> event list \<Rightarrow> bool" where
  "deletes_where P names evs =
     (\<forall>ev \<in> set evs. \<forall>p. deleted_path ev = Some p \<longrightarrow>
        (\<exists>directory name. name \<in> set names \<and> P directory \<and> p = join directory name))"





lemma deletes_where_mono:
  "set names \<subseteq> set names' \<Longrightarrow> deletes_where P names evs \<Longrightarrow> deletes_where P names' evs"
  unfolding deletes_where_def by blast






















definition esd :: dirents where
  "esd = [(''Game.uproject'', File False),
          (''Plugins'', Dir False [(''Vault'', Dir True [])])]"

lemmas cleanup_eval =
  clean_files_and_folders_def root_folders_def plugin_folders_def clean_root_files_def
  clean_plugins_folder_def remove_items_recursively.simps delete_listed_def glob_uproject_def
  is_uproject_name_def splitext_root_def Let_def


lemma fixture_esd:
  "clean_files_and_folders (cwd env1) ''Game'' esd
     = (Some (access_denied (join (join (cwd env1) ''Plugins'') ''Vault'')),
        esd,
        [EvLog ''Cleaning project root folders...'',
         EvLog ''Cleaning project root files...'',
         EvLog ''Cleaning plugin folders and files...''])"
  by (simp add: esd_def cleanup_eval join_def env1_def env0_def)




text \<open>
  Claim C3 says that the cleanup always runs to completion and never lets an exception
  reach its caller. Each deletion has its own \<open>try\<close>, but \<open>os.listdir\<close> (line 161) has
  none: with a directory under \<open>Plugins\<close> that cannot be listed, the exception leaves
  \<open>clean_files_and_folders\<close>, the line \<open>Cleanup completed successfully!\<close> is not logged,
  and the pipeline ends in its handler without starting any process.
\<close>

theorem cleanup_listing_error_escapes:
  "fst (clean_files_and_folders (cwd env1) ''Game'' esd)
     = Some (access_denied (join (join (cwd env1) ''Plugins'') ''Vault''))
   \<and> EvLog ''Cleanup completed successfully!''
        \<notin> set (snd (snd (clean_files_and_folders (cwd env1) ''Game'' esd)))
   \<and> last (log_queue (run_build_process env1 False False (w0\<lparr>project := esd\<rparr>)))
       = ''Error: '' @ str (access_denied (join (join (cwd env1) ''Plugins'') ''Vault''))
   \<and> filter is_step_event (trace (run_build_process env1 False False (w0\<lparr>project := esd\<rparr>)))
       = []"
proof -
  let ?w = "w0\<lparr>project := esd\<rparr>"
  let ?e = "access_denied (join (join (cwd env1) ''Plugins'') ''Vault'')"
  let ?root = "default_engine_path ''5.3''"
  have g: "glob_uproject (project ?w) = ''Game.uproject'' # []"
    by (simp add: esd_def glob_uproject_def is_uproject_name_def)
  have v: "''5.3'' \<noteq> []" by simp
  let ?w1 = "logs (preamble_log env1 ''Game.uproject'' [] ''5.3'') ?w"
  have r: "run_build_process env1 False False ?w
      = clean_and_build env1 False False (cwd env1) ''Game'' ''Game.uproject'' ?root ?w1"
    using run_build_process_resolved[OF g fixture_facts(1) v fixture_resolve1, of False False]
    by (simp add: fixture_name)
  have p: "project ?w1 = esd" by simp
  have c: "clean_and_build env1 False False (cwd env1) ''Game'' ''Game.uproject'' ?root ?w1
      = on_exception ?e
          (emit [EvLog ''Cleaning project root folders...'',
                 EvLog ''Cleaning project root files...'',
                 EvLog ''Cleaning plugin folders and files...'']
             ((log (CHR 0x0A # ''=== Cleaning project files for rebuild ==='') ?w1)
                \<lparr>project := esd\<rparr>))"
    using fixture_facts(2)
    by (simp add: clean_and_build_def Let_def fixture_esd)
  have t0: "trace w0 = []" by (simp add: w0_def)
  have a: "last (log_queue (run_build_process env1 False False ?w)) = ''Error: '' @ str ?e"
    unfolding r c by simp
  have b: "filter is_step_event (trace (run_build_process env1 False False ?w)) = []"
    unfolding r c by (simp add: t0 comp_def)
  show ?thesis
    using a b by (simp add: fixture_esd)
qed

section \<open>The cleanup: when it completes\<close>

text \<open>
  \<open>listable x\<close>: no directory in the tree \<open>x\<close> refuses to be listed. Files may be
  locked.
\<close>

fun listable :: "fsnode \<Rightarrow> bool" and listable_entries :: "dirents \<Rightarrow> bool" where
  "listable (File locked) = True"
| "listable (Dir denied es) = (\<not> denied \<and> listable_entries es)"
| "listable_entries [] = True"
| "listable_entries ((name, x) # es) = (listable x \<and> listable_entries es)"

lemma rmtree_listable:
  "rmtree_node path x = Some (x', e) \<Longrightarrow> listable x \<Longrightarrow> listable x'"
  "rmtree_entries path es = Some (es', e) \<Longrightarrow> listable_entries es \<Longrightarrow> listable_entries es'"
  by (induction path x and path es arbitrary: x' e and es' e
      rule: rmtree_node_rmtree_entries.induct)
     (auto split: if_splits option.splits)

lemma listable_map_of:
  "listable_entries es \<Longrightarrow> map_of es name = Some x \<Longrightarrow> listable x"
  by (induction es) (auto split: if_splits)

lemma listable_remove_entry: "listable_entries es \<Longrightarrow> listable_entries (remove_entry name es)"
  by (induction es) auto

lemma listable_replace_entry:
  "listable_entries es \<Longrightarrow> listable y \<Longrightarrow> listable_entries (replace_entry name y es)"
  by (induction es) auto

lemma delete_folder_listable:
  assumes "listable_entries es"
  shows "listable_entries (fst (delete_folder directory (es, evs) folder))"
proof (cases "map_of es folder")
  case None
  with assms show ?thesis by (simp add: Let_def)
next
  case (Some x)
  show ?thesis
  proof (cases x)
    case (File locked)
    with Some assms show ?thesis by (simp add: Let_def)
  next
    case (Dir denied sub)
    have lx: "listable (Dir denied sub)"
      using listable_map_of[OF assms Some] Dir by simp
    show ?thesis
    proof (cases "rmtree_node (join directory folder) (Dir denied sub)")
      case None
      with \<open>map_of es folder = Some x\<close> Dir assms show ?thesis
        by (simp add: Let_def listable_remove_entry del: rmtree_node.simps)
    next
      case (Some r)
      obtain rest e where r: "r = (rest, e)" by (cases r)
      have "listable rest"
        using rmtree_listable(1)[of "join directory folder" "Dir denied sub" rest e] Some r lx
        by simp
      with \<open>map_of es folder = Some x\<close> Dir Some r assms show ?thesis
        by (simp add: Let_def listable_replace_entry del: rmtree_node.simps)
    qed
  qed
qed

lemma delete_file_listable:
  "listable_entries es \<Longrightarrow> listable_entries (fst (delete_file directory (es, evs) file))"
  by (auto simp: Let_def listable_remove_entry split: option.splits fsnode.splits)

lemma foldl_delete_folder_listable:
  "listable_entries (fst st) \<Longrightarrow>
   listable_entries (fst (foldl (delete_folder directory) st names))"
proof (induction names arbitrary: st)
  case Nil
  then show ?case by simp
next
  case (Cons a names)
  obtain es evs where st: "st = (es, evs)" by (cases st)
  have "listable_entries (fst (delete_folder directory st a))"
    unfolding st using Cons.prems st delete_folder_listable by simp
  from Cons.IH[OF this] show ?case by simp
qed

lemma foldl_delete_file_listable:
  "listable_entries (fst st) \<Longrightarrow>
   listable_entries (fst (foldl (delete_file directory) st names))"
proof (induction names arbitrary: st)
  case Nil
  then show ?case by simp
next
  case (Cons a names)
  obtain es evs where st: "st = (es, evs)" by (cases st)
  have "listable_entries (fst (delete_file directory st a))"
    unfolding st using Cons.prems st delete_file_listable by simp
  from Cons.IH[OF this] show ?case by simp
qed

lemma delete_listed_listable:
  "listable_entries es \<Longrightarrow> listable_entries (fst (delete_listed directory folders files es))"
  unfolding delete_listed_def
  by (intro foldl_delete_file_listable foldl_delete_folder_listable) simp

lemma walk_completes:
  "\<not> denied \<Longrightarrow> listable_entries es \<Longrightarrow>
   fst (remove_items_recursively directory folders files denied es) = None"
  "listable_entries es \<Longrightarrow> fst (walk_entries directory folders files es) = None"
proof (induction directory folders files denied es and directory folders files es
    rule: remove_items_recursively_walk_entries.induct)
  case (1 directory folders files denied es)
  have "listable_entries (fst (delete_listed directory folders files es))"
    using "1.prems"(2) by (rule delete_listed_listable)
  from "1.IH"[OF refl "1.prems"(1) this] "1.prems"(1) show ?case
    by (subst remove_items_recursively.simps) (auto simp: Let_def split: prod.splits)
next
  case (2 directory folders files)
  show ?case by simp
next
  case (3 directory folders files entry x rest)
  show ?case
  proof (cases x)
    case (File locked)
    then show ?thesis
      using "3.IH"(1)[OF File] "3.prems" by (auto split: prod.splits)
  next
    case (Dir denied sub)
    obtain r sub' evs where c:
      "remove_items_recursively (join directory entry) folders files denied sub = (r, sub', evs)"
      by (cases "remove_items_recursively (join directory entry) folders files denied sub")
    have r: "r = None"
      using "3.IH"(2)[OF Dir] "3.prems" Dir c by simp
    have "fst (walk_entries directory folders files rest) = None"
      using "3.IH"(3)[OF Dir c[symmetric] r refl] "3.prems" by simp
    then show ?thesis
      using Dir c r by (auto split: prod.splits)
  qed
qed

text \<open>
  When every directory of the project can be listed, the cleanup returns and its last
  message is \<open>Cleanup completed successfully!\<close>, whichever deletions fail.
\<close>

lemma cleanup_completes_when_listable:
  assumes "listable_entries es"
  shows "fst (clean_files_and_folders script_directory project_name es) = None
     \<and> last (snd (snd (clean_files_and_folders script_directory project_name es)))
         = EvLog ''Cleanup completed successfully!''"
proof -
  let ?st1 = "foldl (delete_folder script_directory)
                  (es, [EvLog ''Cleaning project root folders...'']) root_folders"
  let ?in2 = "(fst ?st1, snd ?st1 @ [EvLog ''Cleaning project root files...''])"
  let ?st2 = "clean_root_files script_directory ?in2"
  have l1: "listable_entries (fst ?st1)"
    using assms by (intro foldl_delete_folder_listable) simp
  have l2: "listable_entries (fst ?st2)"
  proof (cases "glob_uproject (fst ?in2)")
    case Nil
    then show ?thesis using l1 by (simp add: clean_root_files_def)
  next
    case (Cons project_file others)
    have e: "?st2 = foldl (delete_file script_directory) ?in2
          [splitext_root project_file @ ''.sln'', ''.vsconfig'']"
      by (simp only: clean_root_files_def Let_def Cons list.case)
    show ?thesis
      unfolding e using l1 by (intro foldl_delete_file_listable) simp
  qed
  have p: "fst (clean_plugins_folder script_directory project_name (fst ?st2)) = None"
  proof (cases "map_of (fst ?st2) ''Plugins''")
    case None
    then show ?thesis by (simp add: clean_plugins_folder_def)
  next
    case (Some x)
    show ?thesis
    proof (cases x)
      case (File locked)
      with Some show ?thesis by (simp add: clean_plugins_folder_def)
    next
      case (Dir denied sub)
      have "listable (Dir denied sub)"
        using listable_map_of[OF l2 Some] Dir by simp
      then have "fst (remove_items_recursively (join script_directory ''Plugins'') plugin_folders
         [project_name @ ''.sln'', ''.vsconfig''] denied sub) = None"
        by (intro walk_completes(1)) simp_all
      with Some Dir show ?thesis
        by (auto simp: clean_plugins_folder_def Let_def split: prod.splits)
    qed
  qed
  obtain r es' evs where c:
    "clean_plugins_folder script_directory project_name (fst ?st2) = (r, es', evs)"
    by (cases "clean_plugins_folder script_directory project_name (fst ?st2)")
  with p have r: "r = None" by simp
  show ?thesis
    unfolding clean_files_and_folders_def Let_def c r by simp
qed

text \<open>
  A deletion that raises is logged with the path it was given, and the loop goes on with
  the state it returns.
\<close>

lemma delete_folder_error_logged:
  assumes "map_of es folder = Some (Dir denied sub)"
    and "rmtree_node (join directory folder) (Dir denied sub) = Some (rest, e)"
  shows "snd (delete_folder directory (es, evs) folder)
     = evs @ [EvRmtree (join directory folder),
              EvLog (''Error removing folder '' @ join directory folder @ '': '' @ str e)]"
  using assms by (simp add: Let_def del: rmtree_node.simps)

lemma delete_file_error_logged:
  assumes "map_of es file = Some (File True)"
  shows "delete_file directory (es, evs) file
     = (es, evs @ [EvRemove (join directory file),
                   EvLog (''Error removing file '' @ join directory file @ '': ''
                          @ str (access_denied (join directory file)))])"
  using assms by (simp add: Let_def)

end
